theory Spec2Isabelle
  imports Main
begin

section \<open>The element type and the outcome of an operation\<close>

text \<open>
  The file \<^verbatim>\<open>advanced-vector/vector.h\<close> defines two class templates, \<^verbatim>\<open>RawMemory<T>\<close> and
  \<^verbatim>\<open>Vector<T>\<close>. The element type \<^verbatim>\<open>T\<close> is a template parameter, so its behaviour is a parameter
  of the model: a record saying which of its special member functions throw on which source
  value, what a moved-from object looks like, what value-initialisation yields, the two
  type traits the code queries with \<^verbatim>\<open>if constexpr\<close>, and \<^verbatim>\<open>sizeof(T)\<close>.

  A copy yields an object equal to its source and leaves the source alone. A move yields an
  object equal to its source and leaves \<open>moved_from T x\<close> behind. A constructor or assignment
  that throws leaves both of its operands as they were.

  \<^verbatim>\<open>size_t\<close> is modelled by \<open>nat\<close>, with the wrap-around of its 64 bits written out
  where the code multiplies a number chosen by the caller: the byte count
  \<^verbatim>\<open>n * sizeof(T)\<close> of \<^verbatim>\<open>Allocate\<close>, which \<^verbatim>\<open>Reserve\<close>, \<^verbatim>\<open>Resize\<close> and \<^verbatim>\<open>Vector(size_t)\<close>
  reach with any \<open>n\<close>. The size of a vector counts objects that exist in one block, and no
  block is larger than \<^verbatim>\<open>PTRDIFF_MAX\<close> \<open>= 2 ^ 63 - 1\<close> bytes, so \<^verbatim>\<open>size_ * 2\<close> and
  \<^verbatim>\<open>++size_\<close> stay below \<open>2 ^ 64\<close>. The subtractions \<^verbatim>\<open>size_ - 1\<close> and
  \<^verbatim>\<open>size_ - index\<close>, which would wrap below zero, are guarded where they occur: the code
  has undefined behaviour there, and so has the model.
\<close>

datatype exn = bad_alloc | elem_exn nat

record 'a elem_type =
  copy_ctor :: "'a \<Rightarrow> exn option"
  move_ctor :: "'a \<Rightarrow> exn option"
  copy_assign :: "'a \<Rightarrow> exn option"
  move_assign :: "'a \<Rightarrow> exn option"
  moved_from :: "'a \<Rightarrow> 'a"
  value_init :: "exn + 'a"
  is_nothrow_move_constructible :: bool
  is_copy_constructible :: bool
  sizeof :: nat

text \<open>
  An operation returns a value and leaves a state, or throws and leaves a state, or has
  undefined behaviour (a failed \<^verbatim>\<open>assert\<close>, a destructor run on raw memory, a read of a slot
  that holds no object, an iterator range that is not a range).
\<close>

datatype ('r, 's) result = Returned 'r 's | Threw exn 's | Undefined

text \<open>
  A reference of type \<^verbatim>\<open>const T&\<close> or \<^verbatim>\<open>T&&\<close> that a caller passes to a member function
  of a vector denotes an object outside that vector, given by its value, or the element in a
  slot of the buffer of that vector (as in \<^verbatim>\<open>v.PushBack(v[0])\<close> and
  \<^verbatim>\<open>v.Insert(pos, std::move(v[0]))\<close>). What a move leaves in an object outside the vector
  is not part of the state.
\<close>

datatype 'a ref = Outside 'a | Element nat

fun deref :: "'a ref \<Rightarrow> 'a option list \<Rightarrow> 'a option" where
  "deref (Outside x) buf = Some x"
| "deref (Element i) buf = (if i < length buf then buf ! i else None)"

fun leave :: "'a ref \<Rightarrow> 'a \<Rightarrow> 'a option list \<Rightarrow> 'a option list" where
  "leave (Outside x) y buf = buf"
| "leave (Element i) y buf = buf[i := Some y]"

text \<open>
  The arguments perfectly forwarded to a constructor of \<^verbatim>\<open>T\<close>: an lvalue of type \<^verbatim>\<open>T\<close> (copy
  construction), an rvalue of type \<^verbatim>\<open>T\<close> (move construction), or anything else, given by
  what that constructor does. Constructing an object from them, while the buffer of the
  vector is \<open>buf\<close>, yields the object and the buffer as the construction leaves it (a move
  from an element of the vector leaves that element moved-from), or throws and leaves the
  buffer as it was, or has undefined behaviour when the reference denotes no object.
\<close>

datatype 'a ctor_args = CopyFrom "'a ref" | MoveFrom "'a ref" | Args "exn + 'a"

datatype 'a construction = Built 'a "'a option list" | Failed exn | Dangling

fun construct :: "'a elem_type \<Rightarrow> 'a ctor_args \<Rightarrow> 'a option list \<Rightarrow> 'a construction" where
  "construct T (CopyFrom r) buf =
     (case deref r buf of
        None \<Rightarrow> Dangling
      | Some x \<Rightarrow> (case copy_ctor T x of Some e \<Rightarrow> Failed e | None \<Rightarrow> Built x buf))"
| "construct T (MoveFrom r) buf =
     (case deref r buf of
        None \<Rightarrow> Dangling
      | Some x \<Rightarrow>
          (case move_ctor T x of
             Some e \<Rightarrow> Failed e
           | None \<Rightarrow> Built x (leave r (moved_from T x) buf)))"
| "construct T (Args r) buf = (case r of Inl e \<Rightarrow> Failed e | Inr x \<Rightarrow> Built x buf)"

section \<open>Raw storage and the standard algorithms on it\<close>

text \<open>
  A buffer is a list of slots: \<open>None\<close> is raw memory, \<open>Some x\<close> a live object. The
  algorithms of \<^verbatim>\<open><memory>\<close> and \<^verbatim>\<open><algorithm>\<close> the code calls are loops over slot indices.
  The \<^verbatim>\<open>uninitialized_*\<close> family destroys what it has constructed when a constructor throws,
  and rethrows.
\<close>

fun uninitialized_copy_n ::
  "'a elem_type \<Rightarrow> 'a option list \<Rightarrow> nat \<Rightarrow> nat \<Rightarrow> 'a option list \<Rightarrow> nat
    \<Rightarrow> (unit, 'a option list) result" where
  "uninitialized_copy_n T src first 0 dst d_first = Returned () dst"
| "uninitialized_copy_n T src first (Suc n) dst d_first =
     (if first < length src \<and> d_first < length dst then
        (case src ! first of
           None \<Rightarrow> Undefined
         | Some x \<Rightarrow>
             (case copy_ctor T x of
                Some e \<Rightarrow> Threw e dst
              | None \<Rightarrow>
                  (case uninitialized_copy_n T src (Suc first) n
                          (dst[d_first := Some x]) (Suc d_first) of
                     Returned u d \<Rightarrow> Returned u d
                   | Threw e d \<Rightarrow> Threw e (d[d_first := None])
                   | Undefined \<Rightarrow> Undefined)))
      else Undefined)"

fun uninitialized_move_n ::
  "'a elem_type \<Rightarrow> 'a option list \<Rightarrow> nat \<Rightarrow> nat \<Rightarrow> 'a option list \<Rightarrow> nat
    \<Rightarrow> (unit, 'a option list \<times> 'a option list) result" where
  "uninitialized_move_n T src first 0 dst d_first = Returned () (src, dst)"
| "uninitialized_move_n T src first (Suc n) dst d_first =
     (if first < length src \<and> d_first < length dst then
        (case src ! first of
           None \<Rightarrow> Undefined
         | Some x \<Rightarrow>
             (case move_ctor T x of
                Some e \<Rightarrow> Threw e (src, dst)
              | None \<Rightarrow>
                  (case uninitialized_move_n T (src[first := Some (moved_from T x)]) (Suc first) n
                          (dst[d_first := Some x]) (Suc d_first) of
                     Returned u sd \<Rightarrow> Returned u sd
                   | Threw e sd \<Rightarrow> Threw e (fst sd, (snd sd)[d_first := None])
                   | Undefined \<Rightarrow> Undefined)))
      else Undefined)"

fun uninitialized_value_construct_n ::
  "'a elem_type \<Rightarrow> 'a option list \<Rightarrow> nat \<Rightarrow> nat \<Rightarrow> (unit, 'a option list) result" where
  "uninitialized_value_construct_n T dst first 0 = Returned () dst"
| "uninitialized_value_construct_n T dst first (Suc n) =
     (if first < length dst then
        (case value_init T of
           Inl e \<Rightarrow> Threw e dst
         | Inr x \<Rightarrow>
             (case uninitialized_value_construct_n T (dst[first := Some x]) (Suc first) n of
                Returned u d \<Rightarrow> Returned u d
              | Threw e d \<Rightarrow> Threw e (d[first := None])
              | Undefined \<Rightarrow> Undefined))
      else Undefined)"

text \<open>\<^verbatim>\<open>std::destroy_n\<close>: runs the destructor of each object; \<open>None\<close> is undefined behaviour.\<close>

fun destroy_n :: "'a option list \<Rightarrow> nat \<Rightarrow> nat \<Rightarrow> 'a option list option" where
  "destroy_n buf first 0 = Some buf"
| "destroy_n buf first (Suc n) =
     (if first < length buf then
        (case buf ! first of
           None \<Rightarrow> None
         | Some x \<Rightarrow> destroy_n (buf[first := None]) (Suc first) n)
      else None)"

definition destroy :: "'a option list \<Rightarrow> nat \<Rightarrow> nat \<Rightarrow> 'a option list option" where
  "destroy buf first lst = (if first \<le> lst then destroy_n buf first (lst - first) else None)"

definition destroy_at :: "'a option list \<Rightarrow> nat \<Rightarrow> 'a option list option" where
  "destroy_at buf p = destroy_n buf p 1"

text \<open>\<^verbatim>\<open>std::copy_n\<close>: copy assignment onto live objects of another buffer.\<close>

fun copy_n ::
  "'a elem_type \<Rightarrow> 'a option list \<Rightarrow> nat \<Rightarrow> nat \<Rightarrow> 'a option list \<Rightarrow> nat
    \<Rightarrow> (unit, 'a option list) result" where
  "copy_n T src first 0 dst d_first = Returned () dst"
| "copy_n T src first (Suc n) dst d_first =
     (if first < length src \<and> d_first < length dst then
        (case src ! first of
           None \<Rightarrow> Undefined
         | Some x \<Rightarrow>
             (case dst ! d_first of
                None \<Rightarrow> Undefined
              | Some y \<Rightarrow>
                  (case copy_assign T x of
                     Some e \<Rightarrow> Threw e dst
                   | None \<Rightarrow> copy_n T src (Suc first) n (dst[d_first := Some x]) (Suc d_first))))
      else Undefined)"

text \<open>
  \<^verbatim>\<open>std::move(first, last, d_first)\<close> and \<^verbatim>\<open>std::move_backward(first, last, d_last)\<close> inside one
  buffer: move assignment, front to back and back to front.
\<close>

fun std_move_n ::
  "'a elem_type \<Rightarrow> 'a option list \<Rightarrow> nat \<Rightarrow> nat \<Rightarrow> nat \<Rightarrow> (unit, 'a option list) result" where
  "std_move_n T buf first 0 d_first = Returned () buf"
| "std_move_n T buf first (Suc n) d_first =
     (if first < length buf \<and> d_first < length buf then
        (case buf ! first of
           None \<Rightarrow> Undefined
         | Some x \<Rightarrow>
             (case buf ! d_first of
                None \<Rightarrow> Undefined
              | Some y \<Rightarrow>
                  (case move_assign T x of
                     Some e \<Rightarrow> Threw e buf
                   | None \<Rightarrow>
                       std_move_n T (buf[d_first := Some x, first := Some (moved_from T x)])
                         (Suc first) n (Suc d_first))))
      else Undefined)"

definition std_move ::
  "'a elem_type \<Rightarrow> 'a option list \<Rightarrow> nat \<Rightarrow> nat \<Rightarrow> nat \<Rightarrow> (unit, 'a option list) result" where
  "std_move T buf first lst d_first =
     (if first \<le> lst then std_move_n T buf first (lst - first) d_first else Undefined)"

fun move_backward_n ::
  "'a elem_type \<Rightarrow> 'a option list \<Rightarrow> nat \<Rightarrow> nat \<Rightarrow> nat \<Rightarrow> (unit, 'a option list) result" where
  "move_backward_n T buf first 0 d_last = Returned () buf"
| "move_backward_n T buf first (Suc n) d_last =
     (if first + n < length buf \<and> 0 < d_last \<and> d_last - 1 < length buf then
        (case buf ! (first + n) of
           None \<Rightarrow> Undefined
         | Some x \<Rightarrow>
             (case buf ! (d_last - 1) of
                None \<Rightarrow> Undefined
              | Some y \<Rightarrow>
                  (case move_assign T x of
                     Some e \<Rightarrow> Threw e buf
                   | None \<Rightarrow>
                       move_backward_n T
                         (buf[d_last - 1 := Some x, first + n := Some (moved_from T x)])
                         first n (d_last - 1))))
      else Undefined)"

definition move_backward ::
  "'a elem_type \<Rightarrow> 'a option list \<Rightarrow> nat \<Rightarrow> nat \<Rightarrow> nat \<Rightarrow> (unit, 'a option list) result" where
  "move_backward T buf first lst d_last =
     (if first \<le> lst then move_backward_n T buf first (lst - first) d_last else Undefined)"

text \<open>
  The block the code repeats in \<^verbatim>\<open>Reserve\<close>, \<^verbatim>\<open>EmplaceBack\<close>, both \<^verbatim>\<open>PushBack\<close> and twice in
  \<^verbatim>\<open>Emplace\<close>:
  \<^verbatim>\<open>if constexpr (std::is_nothrow_move_constructible_v<T> || !std::is_copy_constructible_v<T>)
    std::uninitialized_move_n(...); else std::uninitialized_copy_n(...);\<close>
  The state it leaves is the pair of the old and the new buffer.
\<close>

definition relocate_n ::
  "'a elem_type \<Rightarrow> 'a option list \<Rightarrow> nat \<Rightarrow> nat \<Rightarrow> 'a option list \<Rightarrow> nat
    \<Rightarrow> (unit, 'a option list \<times> 'a option list) result" where
  "relocate_n T src first n dst d_first =
     (if is_nothrow_move_constructible T \<or> \<not> is_copy_constructible T then
        uninitialized_move_n T src first n dst d_first
      else
        (case uninitialized_copy_n T src first n dst d_first of
           Returned u d \<Rightarrow> Returned u (src, d)
         | Threw e d \<Rightarrow> Threw e (src, d)
         | Undefined \<Rightarrow> Undefined))"

section \<open>RawMemory\<close>

text \<open>
  \<^verbatim>\<open>RawMemory<T>\<close> holds a pointer and a capacity. The pointer is the address \<^verbatim>\<open>operator new\<close>
  returned, or \<open>None\<close> for \<^verbatim>\<open>nullptr\<close>; the field \<open>cells\<close> is the storage the pointer owns.
  Copying a \<^verbatim>\<open>RawMemory\<close> is deleted in the source, so no two objects share storage and the
  storage can travel with its pointer. The environment's \<^verbatim>\<open>operator new\<close> is a parameter: for
  a number of bytes it gives the address of the new block, or \<open>None\<close> when it throws
  \<^verbatim>\<open>std::bad_alloc\<close>. Every operation of \<^verbatim>\<open>Vector\<close> allocates at most once, so it asks the
  allocator at most once.

  \<^verbatim>\<open>Allocate(n)\<close> asks for \<^verbatim>\<open>n * sizeof(T)\<close> bytes, a product of two \<^verbatim>\<open>size_t\<close> that wraps
  at \<open>2 ^ 64\<close>. The block it gets has room for as many objects as these bytes hold, which
  is fewer than \<open>n\<close> when the product has wrapped; the constructor of \<^verbatim>\<open>RawMemory\<close> records
  the capacity \<open>n\<close> all the same. The algorithms below have undefined behaviour on a slot
  outside the block.
\<close>

type_synonym allocator = "nat \<Rightarrow> nat option"

text \<open>A data member \<^verbatim>\<open>x_\<close> of the source is the field \<open>m_x\<close> here.\<close>

record 'a RawMemory =
  m_buffer :: "nat option"
  m_capacity :: nat
  cells :: "'a option list"

text \<open>A pointer of type \<^verbatim>\<open>T*\<close>: the block it points into and the slot offset.\<close>

datatype ptr = Ptr "nat option" nat

fun ptr_add :: "ptr \<Rightarrow> nat \<Rightarrow> ptr" where
  "ptr_add (Ptr b i) k = Ptr b (i + k)"

fun ptr_sub :: "ptr \<Rightarrow> nat \<Rightarrow> ptr option" where
  "ptr_sub (Ptr b i) k = (if k \<le> i then Some (Ptr b (i - k)) else None)"

text \<open>\<^verbatim>\<open>std::distance(first, last)\<close> of two pointers: defined inside one block only.\<close>

fun distance :: "ptr \<Rightarrow> ptr \<Rightarrow> nat option" where
  "distance (Ptr b i) (Ptr c j) = (if b = c \<and> i \<le> j then Some (j - i) else None)"

definition size_t_mul :: "nat \<Rightarrow> nat \<Rightarrow> nat" where
  "size_t_mul a b = (a * b) mod 2 ^ 64"

definition Allocate :: "'a elem_type \<Rightarrow> allocator \<Rightarrow> nat \<Rightarrow> exn + nat option" where
  "Allocate T A n =
     (if n \<noteq> 0 then
        (case A (size_t_mul n (sizeof T)) of None \<Rightarrow> Inl bad_alloc | Some p \<Rightarrow> Inr (Some p))
      else Inr None)"

definition RawMemory_default :: "'a RawMemory" where
  "RawMemory_default = \<lparr>m_buffer = None, m_capacity = 0, cells = []\<rparr>"

definition RawMemory_sized :: "'a elem_type \<Rightarrow> allocator \<Rightarrow> nat \<Rightarrow> exn + 'a RawMemory" where
  "RawMemory_sized T A capacity =
     (case Allocate T A capacity of
        Inl e \<Rightarrow> Inl e
      | Inr p \<Rightarrow>
          Inr \<lparr>m_buffer = p, m_capacity = capacity,
               cells = replicate (size_t_mul capacity (sizeof T) div sizeof T) None\<rparr>)"

definition RawMemory_Swap :: "'a RawMemory \<Rightarrow> 'a RawMemory \<Rightarrow> 'a RawMemory \<times> 'a RawMemory" where
  "RawMemory_Swap this other =
     (\<lparr>m_buffer = m_buffer other, m_capacity = m_capacity other, cells = cells other\<rparr>,
      \<lparr>m_buffer = m_buffer this, m_capacity = m_capacity this, cells = cells this\<rparr>)"

definition GetAddress :: "'a RawMemory \<Rightarrow> ptr" where
  "GetAddress m = Ptr (m_buffer m) 0"

text \<open>\<^verbatim>\<open>operator+\<close> and \<^verbatim>\<open>operator[]\<close> with their assertions.\<close>

definition RawMemory_plus :: "'a RawMemory \<Rightarrow> nat \<Rightarrow> ptr option" where
  "RawMemory_plus m offset =
     (if offset \<le> m_capacity m then Some (ptr_add (GetAddress m) offset) else None)"

definition RawMemory_index :: "'a RawMemory \<Rightarrow> nat \<Rightarrow> nat option" where
  "RawMemory_index m index = (if index < m_capacity m then Some index else None)"

text \<open>Placement \<^verbatim>\<open>new\<close> of an object into a slot of a buffer.\<close>

definition placement_new :: "'a option list \<Rightarrow> nat \<Rightarrow> 'a \<Rightarrow> 'a option list option" where
  "placement_new buf i x = (if i < length buf then Some (buf[i := Some x]) else None)"

section \<open>Vector\<close>

record 'a Vector =
  m_data :: "'a RawMemory"
  m_size :: nat

definition Vector_begin :: "'a Vector \<Rightarrow> ptr" where
  "Vector_begin v = GetAddress (m_data v)"

definition Vector_end :: "'a Vector \<Rightarrow> ptr" where
  "Vector_end v = ptr_add (GetAddress (m_data v)) (m_size v)"

definition cbegin :: "'a Vector \<Rightarrow> ptr" where
  "cbegin v = GetAddress (m_data v)"

definition cend :: "'a Vector \<Rightarrow> ptr" where
  "cend v = ptr_add (GetAddress (m_data v)) (m_size v)"

definition Size :: "'a Vector \<Rightarrow> nat" where
  "Size v = m_size v"

definition Capacity :: "'a Vector \<Rightarrow> nat" where
  "Capacity v = m_capacity (m_data v)"

text \<open>\<^verbatim>\<open>operator[]\<close>: the object in slot \<open>index\<close>, with its assertion.\<close>

definition Vector_index :: "'a Vector \<Rightarrow> nat \<Rightarrow> 'a option" where
  "Vector_index v index =
     (if index < m_size v \<and> index < m_capacity (m_data v) \<and> index < length (cells (m_data v))
      then cells (m_data v) ! index else None)"

subsection \<open>Constructors, destructor, Swap\<close>

definition Vector_default :: "'a Vector" where
  "Vector_default = \<lparr>m_data = RawMemory_default, m_size = 0\<rparr>"

definition Vector_sized :: "'a elem_type \<Rightarrow> allocator \<Rightarrow> nat \<Rightarrow> ('a Vector, unit) result" where
  "Vector_sized T A sz =
     (case RawMemory_sized T A sz of
        Inl e \<Rightarrow> Threw e ()
      | Inr d \<Rightarrow>
          (case uninitialized_value_construct_n T (cells d) 0 sz of
             Returned u c \<Rightarrow> Returned \<lparr>m_data = d\<lparr>cells := c\<rparr>, m_size = sz\<rparr> ()
           | Threw e c \<Rightarrow> Threw e ()
           | Undefined \<Rightarrow> Undefined))"

definition Vector_copy :: "'a elem_type \<Rightarrow> allocator \<Rightarrow> 'a Vector \<Rightarrow> ('a Vector, unit) result" where
  "Vector_copy T A other =
     (case RawMemory_sized T A (m_size other) of
        Inl e \<Rightarrow> Threw e ()
      | Inr d \<Rightarrow>
          (case uninitialized_copy_n T (cells (m_data other)) 0 (m_size other) (cells d) 0 of
             Returned u c \<Rightarrow> Returned \<lparr>m_data = d\<lparr>cells := c\<rparr>, m_size = m_size other\<rparr> ()
           | Threw e c \<Rightarrow> Threw e ()
           | Undefined \<Rightarrow> Undefined))"

text \<open>
  The move constructor: the new object starts from its default member initialisers and swaps
  with \<open>other\<close>. The pair is the new object and what is left of \<open>other\<close>.
\<close>

definition Vector_move :: "'a Vector \<Rightarrow> 'a Vector \<times> 'a Vector" where
  "Vector_move other =
     (let this = Vector_default;
          dd = RawMemory_Swap (m_data this) (m_data other)
      in (\<lparr>m_data = fst dd, m_size = m_size other\<rparr>, \<lparr>m_data = snd dd, m_size = m_size this\<rparr>))"

definition Vector_dtor :: "'a Vector \<Rightarrow> 'a option list option" where
  "Vector_dtor v = destroy_n (cells (m_data v)) 0 (m_size v)"

definition Swap :: "'a Vector \<Rightarrow> 'a Vector \<Rightarrow> 'a Vector \<times> 'a Vector" where
  "Swap this other =
     (let dd = RawMemory_Swap (m_data this) (m_data other)
      in (\<lparr>m_data = fst dd, m_size = m_size other\<rparr>, \<lparr>m_data = snd dd, m_size = m_size this\<rparr>))"

subsection \<open>Reserve and Resize\<close>

definition Reserve ::
  "'a elem_type \<Rightarrow> allocator \<Rightarrow> nat \<Rightarrow> 'a Vector \<Rightarrow> (unit, 'a Vector) result" where
  "Reserve T A new_capacity v =
     (if new_capacity \<le> m_capacity (m_data v) then Returned () v
      else
        (case RawMemory_sized T A new_capacity of
           Inl e \<Rightarrow> Threw e v
         | Inr new_data \<Rightarrow>
             (case relocate_n T (cells (m_data v)) 0 (m_size v) (cells new_data) 0 of
                Undefined \<Rightarrow> Undefined
              | Threw e sd \<Rightarrow> Threw e \<lparr>m_data = (m_data v)\<lparr>cells := fst sd\<rparr>, m_size = m_size v\<rparr>
              | Returned u sd \<Rightarrow>
                  (case destroy_n (fst sd) 0 (m_size v) of
                     None \<Rightarrow> Undefined
                   | Some old \<Rightarrow>
                       Returned () \<lparr>m_data = new_data\<lparr>cells := snd sd\<rparr>, m_size = m_size v\<rparr>))))"

definition Resize ::
  "'a elem_type \<Rightarrow> allocator \<Rightarrow> nat \<Rightarrow> 'a Vector \<Rightarrow> (unit, 'a Vector) result" where
  "Resize T A new_size v =
     (if new_size > m_size v then
        (case Reserve T A new_size v of
           Undefined \<Rightarrow> Undefined
         | Threw e v1 \<Rightarrow> Threw e v1
         | Returned u v1 \<Rightarrow>
             (case uninitialized_value_construct_n T (cells (m_data v1)) (m_size v1)
                     (new_size - m_size v1) of
                Undefined \<Rightarrow> Undefined
              | Threw e c \<Rightarrow> Threw e \<lparr>m_data = (m_data v1)\<lparr>cells := c\<rparr>, m_size = m_size v1\<rparr>
              | Returned u c \<Rightarrow>
                  Returned () \<lparr>m_data = (m_data v1)\<lparr>cells := c\<rparr>, m_size = new_size\<rparr>))
      else if new_size < m_size v then
        (case destroy_n (cells (m_data v)) new_size (m_size v - new_size) of
           None \<Rightarrow> Undefined
         | Some c \<Rightarrow> Returned () \<lparr>m_data = (m_data v)\<lparr>cells := c\<rparr>, m_size = new_size\<rparr>)
      else Returned () v)"

subsection \<open>EmplaceBack, PushBack, PopBack\<close>

text \<open>
  The capacity of the new buffer, \<^verbatim>\<open>(size_ == 0 ? 1 : size_ * 2)\<close>, as \<^verbatim>\<open>EmplaceBack\<close>, both
  \<^verbatim>\<open>PushBack\<close> and \<^verbatim>\<open>Emplace\<close> compute it.
\<close>

definition grown :: "nat \<Rightarrow> nat" where
  "grown n = (if n = 0 then 1 else n * 2)"

text \<open>
  \<^verbatim>\<open>EmplaceBack\<close> returns a reference to the appended element: here the pointer
  \<^verbatim>\<open>data_.GetAddress() + size_ - 1\<close> it dereferences.
\<close>

definition EmplaceBack ::
  "'a elem_type \<Rightarrow> allocator \<Rightarrow> 'a ctor_args \<Rightarrow> 'a Vector \<Rightarrow> (ptr, 'a Vector) result" where
  "EmplaceBack T A args v =
     (if m_size v < Capacity v then
        (case RawMemory_plus (m_data v) (m_size v) of
           None \<Rightarrow> Undefined
         | Some p \<Rightarrow>
             (case construct T args (cells (m_data v)) of
                Dangling \<Rightarrow> Undefined
              | Failed e \<Rightarrow> Threw e v
              | Built x c1 \<Rightarrow>
                  (case placement_new c1 (m_size v) x of
                     None \<Rightarrow> Undefined
                   | Some c \<Rightarrow>
                       (let v' = \<lparr>m_data = (m_data v)\<lparr>cells := c\<rparr>, m_size = m_size v + 1\<rparr>
                        in Returned (ptr_add (GetAddress (m_data v')) (m_size v' - 1)) v'))))
      else
        (let new_capacity = grown (m_size v) in
         case RawMemory_sized T A new_capacity of
           Inl e \<Rightarrow> Threw e v
         | Inr new_data \<Rightarrow>
             (case RawMemory_plus new_data (m_size v) of
                None \<Rightarrow> Undefined
              | Some p \<Rightarrow>
                  (case construct T args (cells (m_data v)) of
                     Dangling \<Rightarrow> Undefined
                   | Failed e \<Rightarrow> Threw e v
                   | Built x c1 \<Rightarrow>
                       (case placement_new (cells new_data) (m_size v) x of
                          None \<Rightarrow> Undefined
                        | Some c0 \<Rightarrow>
                            (case relocate_n T c1 0 (m_size v) c0 0 of
                               Undefined \<Rightarrow> Undefined
                             | Threw e sd \<Rightarrow>
                                 Threw e \<lparr>m_data = (m_data v)\<lparr>cells := fst sd\<rparr>, m_size = m_size v\<rparr>
                             | Returned u sd \<Rightarrow>
                                 (case destroy_n (fst sd) 0 (m_size v) of
                                    None \<Rightarrow> Undefined
                                  | Some old \<Rightarrow>
                                      (let v' = \<lparr>m_data = new_data\<lparr>cells := snd sd\<rparr>,
                                                 m_size = m_size v + 1\<rparr>
                                       in Returned
                                            (ptr_add (GetAddress (m_data v')) (m_size v' - 1))
                                            v'))))))))"

text \<open>\<^verbatim>\<open>void PushBack(const T& value)\<close>\<close>

definition PushBack ::
  "'a elem_type \<Rightarrow> allocator \<Rightarrow> 'a ref \<Rightarrow> 'a Vector \<Rightarrow> (unit, 'a Vector) result" where
  "PushBack T A val v =
     (if m_size v < Capacity v then
        (case RawMemory_plus (m_data v) (m_size v) of
           None \<Rightarrow> Undefined
         | Some p \<Rightarrow>
             (case construct T (CopyFrom val) (cells (m_data v)) of
                Dangling \<Rightarrow> Undefined
              | Failed e \<Rightarrow> Threw e v
              | Built x c1 \<Rightarrow>
                  (case placement_new c1 (m_size v) x of
                     None \<Rightarrow> Undefined
                   | Some c \<Rightarrow>
                       Returned () \<lparr>m_data = (m_data v)\<lparr>cells := c\<rparr>, m_size = m_size v + 1\<rparr>)))
      else
        (let new_capacity = grown (m_size v) in
         case RawMemory_sized T A new_capacity of
           Inl e \<Rightarrow> Threw e v
         | Inr new_data \<Rightarrow>
             (case RawMemory_plus new_data (m_size v) of
                None \<Rightarrow> Undefined
              | Some p \<Rightarrow>
                  (case construct T (CopyFrom val) (cells (m_data v)) of
                     Dangling \<Rightarrow> Undefined
                   | Failed e \<Rightarrow> Threw e v
                   | Built x c1 \<Rightarrow>
                       (case placement_new (cells new_data) (m_size v) x of
                          None \<Rightarrow> Undefined
                        | Some c0 \<Rightarrow>
                            (case relocate_n T c1 0 (m_size v) c0 0 of
                               Undefined \<Rightarrow> Undefined
                             | Threw e sd \<Rightarrow>
                                 Threw e \<lparr>m_data = (m_data v)\<lparr>cells := fst sd\<rparr>, m_size = m_size v\<rparr>
                             | Returned u sd \<Rightarrow>
                                 (case destroy_n (fst sd) 0 (m_size v) of
                                    None \<Rightarrow> Undefined
                                  | Some old \<Rightarrow>
                                      Returned ()
                                        \<lparr>m_data = new_data\<lparr>cells := snd sd\<rparr>,
                                         m_size = m_size v + 1\<rparr>)))))))"

text \<open>\<^verbatim>\<open>template <typename U> void PushBack(U&& value)\<close>\<close>

definition PushBack_fwd ::
  "'a elem_type \<Rightarrow> allocator \<Rightarrow> 'a ctor_args \<Rightarrow> 'a Vector \<Rightarrow> (unit, 'a Vector) result" where
  "PushBack_fwd T A val v =
     (if m_size v < Capacity v then
        (case RawMemory_plus (m_data v) (m_size v) of
           None \<Rightarrow> Undefined
         | Some p \<Rightarrow>
             (case construct T val (cells (m_data v)) of
                Dangling \<Rightarrow> Undefined
              | Failed e \<Rightarrow> Threw e v
              | Built x c1 \<Rightarrow>
                  (case placement_new c1 (m_size v) x of
                     None \<Rightarrow> Undefined
                   | Some c \<Rightarrow>
                       Returned () \<lparr>m_data = (m_data v)\<lparr>cells := c\<rparr>, m_size = m_size v + 1\<rparr>)))
      else
        (let new_capacity = grown (m_size v) in
         case RawMemory_sized T A new_capacity of
           Inl e \<Rightarrow> Threw e v
         | Inr new_data \<Rightarrow>
             (case RawMemory_plus new_data (m_size v) of
                None \<Rightarrow> Undefined
              | Some p \<Rightarrow>
                  (case construct T val (cells (m_data v)) of
                     Dangling \<Rightarrow> Undefined
                   | Failed e \<Rightarrow> Threw e v
                   | Built x c1 \<Rightarrow>
                       (case placement_new (cells new_data) (m_size v) x of
                          None \<Rightarrow> Undefined
                        | Some c0 \<Rightarrow>
                            (case relocate_n T c1 0 (m_size v) c0 0 of
                               Undefined \<Rightarrow> Undefined
                             | Threw e sd \<Rightarrow>
                                 Threw e \<lparr>m_data = (m_data v)\<lparr>cells := fst sd\<rparr>, m_size = m_size v\<rparr>
                             | Returned u sd \<Rightarrow>
                                 (case destroy_n (fst sd) 0 (m_size v) of
                                    None \<Rightarrow> Undefined
                                  | Some old \<Rightarrow>
                                      Returned ()
                                        \<lparr>m_data = new_data\<lparr>cells := snd sd\<rparr>,
                                         m_size = m_size v + 1\<rparr>)))))))"

text \<open>\<^verbatim>\<open>PopBack\<close> on an empty vector computes \<^verbatim>\<open>size_ - 1\<close> below zero: undefined behaviour.\<close>

definition PopBack :: "'a Vector \<Rightarrow> (unit, 'a Vector) result" where
  "PopBack v =
     (if m_size v = 0 then Undefined
      else
        (case destroy_n (cells (m_data v)) (m_size v - 1) 1 of
           None \<Rightarrow> Undefined
         | Some c \<Rightarrow> Returned () \<lparr>m_data = (m_data v)\<lparr>cells := c\<rparr>, m_size = m_size v - 1\<rparr>))"

subsection \<open>Emplace, Insert, Erase\<close>

text \<open>
  \<^verbatim>\<open>Emplace\<close> is split after its source: \<open>Emplace_in_place\<close> is the branch
  \<^verbatim>\<open>if (size_ < Capacity())\<close> (lines 445 to 454), \<open>Emplace_realloc\<close> its \<^verbatim>\<open>else\<close> (lines 455 to
  513). In the reallocating branch each of the two transfers stands in a
  \<^verbatim>\<open>try\<close> block whose handler \<^verbatim>\<open>catch (...)\<close> destroys objects of the new buffer and then
  ends without \<^verbatim>\<open>throw;\<close>: control continues after the handler. The two inner
  \<open>case\<close> expressions are these two \<^verbatim>\<open>try\<close> statements: they yield the buffers control goes on
  with, or \<open>None\<close> for undefined behaviour.
\<close>

definition Emplace_in_place ::
  "'a elem_type \<Rightarrow> nat \<Rightarrow> 'a ctor_args \<Rightarrow> 'a Vector \<Rightarrow> (ptr, 'a Vector) result" where
  "Emplace_in_place T index args v =
     (case construct T args (cells (m_data v)) of
        Dangling \<Rightarrow> Undefined
      | Failed e \<Rightarrow> Threw e v
      | Built inserting_value_tmp c0 \<Rightarrow>
          (if m_size v = 0 then Undefined
           else
             (case (RawMemory_plus (m_data v) (m_size v),
                    RawMemory_index (m_data v) (m_size v - 1)) of
                (Some p, Some i) \<Rightarrow>
                  (if i < length c0 then
                     (case c0 ! i of
                        None \<Rightarrow> Undefined
                      | Some y \<Rightarrow>
                          (case move_ctor T y of
                             Some e \<Rightarrow>
                               Threw e \<lparr>m_data = (m_data v)\<lparr>cells := c0\<rparr>, m_size = m_size v\<rparr>
                           | None \<Rightarrow>
                               (case placement_new (c0[i := Some (moved_from T y)])
                                       (m_size v) y of
                                  None \<Rightarrow> Undefined
                                | Some c1 \<Rightarrow>
                                    (case move_backward T c1 index (m_size v - 1) (m_size v) of
                                       Undefined \<Rightarrow> Undefined
                                     | Threw e c2 \<Rightarrow>
                                         Threw e \<lparr>m_data = (m_data v)\<lparr>cells := c2\<rparr>,
                                                  m_size = m_size v\<rparr>
                                     | Returned u c2 \<Rightarrow>
                                         (case RawMemory_index (m_data v) index of
                                            None \<Rightarrow> Undefined
                                          | Some j \<Rightarrow>
                                              (if j < length c2 then
                                                 (case c2 ! j of
                                                    None \<Rightarrow> Undefined
                                                  | Some z \<Rightarrow>
                                                      (case move_assign T inserting_value_tmp of
                                                         Some e \<Rightarrow>
                                                           Threw e
                                                             \<lparr>m_data = (m_data v)\<lparr>cells := c2\<rparr>,
                                                              m_size = m_size v\<rparr>
                                                       | None \<Rightarrow>
                                                           (let v' =
                                                              \<lparr>m_data = (m_data v)
                                                                 \<lparr>cells :=
                                                                    c2[j := Some inserting_value_tmp]\<rparr>,
                                                               m_size = m_size v + 1\<rparr>
                                                            in Returned
                                                                 (ptr_add (Vector_begin v') index)
                                                                 v')))
                                               else Undefined))))))
                   else Undefined)
              | _ \<Rightarrow> Undefined)))"

definition Emplace_realloc ::
  "'a elem_type \<Rightarrow> allocator \<Rightarrow> nat \<Rightarrow> 'a ctor_args \<Rightarrow> 'a Vector \<Rightarrow> (ptr, 'a Vector) result" where
  "Emplace_realloc T A index args v =
     (let new_capacity = grown (m_size v) in
      case RawMemory_sized T A new_capacity of
        Inl e \<Rightarrow> Threw e v
      | Inr new_data \<Rightarrow>
          (case construct T args (cells (m_data v)) of
             Dangling \<Rightarrow> Undefined
           | Failed e \<Rightarrow> Threw e v
           | Built x c1 \<Rightarrow>
               (case placement_new (cells new_data) index x of
                  None \<Rightarrow> Undefined
                | Some c0 \<Rightarrow>
                    (case (case relocate_n T c1 0 index c0 0 of
                             Undefined \<Rightarrow> None
                           | Returned u sd \<Rightarrow> Some sd
                           | Threw e sd \<Rightarrow>
                               (case destroy_at (snd sd) index of
                                  None \<Rightarrow> None
                                | Some c \<Rightarrow> Some (fst sd, c))) of
                       None \<Rightarrow> Undefined
                     | Some sd1 \<Rightarrow>
                         (case (if m_size v < index then None
                                else
                                  (case relocate_n T (fst sd1) index (m_size v - index)
                                          (snd sd1) (index + 1) of
                                     Undefined \<Rightarrow> None
                                   | Returned u sd \<Rightarrow> Some sd
                                   | Threw e sd \<Rightarrow>
                                       (case destroy (snd sd) 0 (index + 1) of
                                          None \<Rightarrow> None
                                        | Some c \<Rightarrow> Some (fst sd, c)))) of
                            None \<Rightarrow> Undefined
                          | Some sd2 \<Rightarrow>
                              (case destroy_n (fst sd2) 0 (m_size v) of
                                 None \<Rightarrow> Undefined
                               | Some old \<Rightarrow>
                                   (let v' = \<lparr>m_data = new_data\<lparr>cells := snd sd2\<rparr>,
                                              m_size = m_size v + 1\<rparr>
                                    in Returned (ptr_add (Vector_begin v') index) v')))))))"

definition Emplace ::
  "'a elem_type \<Rightarrow> allocator \<Rightarrow> ptr \<Rightarrow> 'a ctor_args \<Rightarrow> 'a Vector \<Rightarrow> (ptr, 'a Vector) result" where
  "Emplace T A pos args v =
     (if pos = cend v then
        (case EmplaceBack T A args v of
           Undefined \<Rightarrow> Undefined
         | Threw e v' \<Rightarrow> Threw e v'
         | Returned r v' \<Rightarrow>
             (case ptr_sub (Vector_end v') 1 of
                None \<Rightarrow> Undefined
              | Some p \<Rightarrow> Returned p v'))
      else
        (case distance (cbegin v) pos of
           None \<Rightarrow> Undefined
         | Some index \<Rightarrow>
             (if m_size v < Capacity v then Emplace_in_place T index args v
              else Emplace_realloc T A index args v)))"

text \<open>\<^verbatim>\<open>Insert(const_iterator, const T&)\<close> and \<^verbatim>\<open>Insert(const_iterator, T&&)\<close>\<close>

definition Insert ::
  "'a elem_type \<Rightarrow> allocator \<Rightarrow> ptr \<Rightarrow> 'a ref \<Rightarrow> 'a Vector \<Rightarrow> (ptr, 'a Vector) result" where
  "Insert T A pos val v = Emplace T A pos (CopyFrom val) v"

definition Insert_rvalue ::
  "'a elem_type \<Rightarrow> allocator \<Rightarrow> ptr \<Rightarrow> 'a ref \<Rightarrow> 'a Vector \<Rightarrow> (ptr, 'a Vector) result" where
  "Insert_rvalue T A pos val v = Emplace T A pos (MoveFrom val) v"

definition Erase :: "'a elem_type \<Rightarrow> ptr \<Rightarrow> 'a Vector \<Rightarrow> (ptr, 'a Vector) result" where
  "Erase T pos v =
     (case distance (cbegin v) pos of
        None \<Rightarrow> Undefined
      | Some index \<Rightarrow>
          (case std_move T (cells (m_data v)) (index + 1) (m_size v) index of
             Undefined \<Rightarrow> Undefined
           | Threw e c \<Rightarrow> Threw e \<lparr>m_data = (m_data v)\<lparr>cells := c\<rparr>, m_size = m_size v\<rparr>
           | Returned u c \<Rightarrow>
               (case PopBack \<lparr>m_data = (m_data v)\<lparr>cells := c\<rparr>, m_size = m_size v\<rparr> of
                  Undefined \<Rightarrow> Undefined
                | Threw e v' \<Rightarrow> Threw e v'
                | Returned u v' \<Rightarrow> Returned (ptr_add (Vector_begin v') index) v')))"

subsection \<open>Assignment\<close>

text \<open>
  Both assignment operators compare \<^verbatim>\<open>this\<close> with \<^verbatim>\<open>&rhs\<close>, so they are modelled on a store of
  vector objects, addressed by number. They return \<^verbatim>\<open>*this\<close>. The temporary \<^verbatim>\<open>rhs_copy\<close> of
  copy-and-swap is destroyed at the end of its block.
\<close>

type_synonym 'a store = "nat \<Rightarrow> 'a Vector"

definition assign_copy ::
  "'a elem_type \<Rightarrow> allocator \<Rightarrow> nat \<Rightarrow> nat \<Rightarrow> 'a store \<Rightarrow> (nat, 'a store) result" where
  "assign_copy T A this rhs st =
     (if this \<noteq> rhs then
        (if m_capacity (m_data (st this)) < m_size (st rhs) then
           (case Vector_copy T A (st rhs) of
              Undefined \<Rightarrow> Undefined
            | Threw e u \<Rightarrow> Threw e st
            | Returned rhs_copy u \<Rightarrow>
                (let p = Swap (st this) rhs_copy in
                 case Vector_dtor (snd p) of
                   None \<Rightarrow> Undefined
                 | Some c \<Rightarrow> Returned this (st(this := fst p))))
         else
           (if m_size (st this) > m_size (st rhs) then
              (case copy_n T (cells (m_data (st rhs))) 0 (m_size (st rhs))
                      (cells (m_data (st this))) 0 of
                 Undefined \<Rightarrow> Undefined
               | Threw e c \<Rightarrow>
                   Threw e (st(this := \<lparr>m_data = (m_data (st this))\<lparr>cells := c\<rparr>,
                                       m_size = m_size (st this)\<rparr>))
               | Returned u c \<Rightarrow>
                   (case destroy_n c (m_size (st rhs)) (m_size (st this) - m_size (st rhs)) of
                      None \<Rightarrow> Undefined
                    | Some c' \<Rightarrow>
                        Returned this
                          (st(this := \<lparr>m_data = (m_data (st this))\<lparr>cells := c'\<rparr>,
                                      m_size = m_size (st rhs)\<rparr>))))
            else
              (case copy_n T (cells (m_data (st rhs))) 0 (m_size (st this))
                      (cells (m_data (st this))) 0 of
                 Undefined \<Rightarrow> Undefined
               | Threw e c \<Rightarrow>
                   Threw e (st(this := \<lparr>m_data = (m_data (st this))\<lparr>cells := c\<rparr>,
                                       m_size = m_size (st this)\<rparr>))
               | Returned u c \<Rightarrow>
                   (case uninitialized_copy_n T (cells (m_data (st rhs))) (m_size (st this))
                           (m_size (st rhs) - m_size (st this)) c (m_size (st this)) of
                      Undefined \<Rightarrow> Undefined
                    | Threw e c' \<Rightarrow>
                        Threw e (st(this := \<lparr>m_data = (m_data (st this))\<lparr>cells := c'\<rparr>,
                                            m_size = m_size (st this)\<rparr>))
                    | Returned u c' \<Rightarrow>
                        Returned this
                          (st(this := \<lparr>m_data = (m_data (st this))\<lparr>cells := c'\<rparr>,
                                      m_size = m_size (st rhs)\<rparr>))))))
      else Returned this st)"

text \<open>
  Move assignment is \<^verbatim>\<open>noexcept\<close> and calls only \<^verbatim>\<open>std::swap\<close> on a pointer and two
  \<^verbatim>\<open>size_t\<close>: it has no throwing and no undefined branch, so it is a plain function on
  stores.
\<close>

definition assign_move :: "nat \<Rightarrow> nat \<Rightarrow> 'a store \<Rightarrow> nat \<times> 'a store" where
  "assign_move this rhs st =
     (if this \<noteq> rhs then
        (let p = Swap (st this) (st rhs) in (this, st(this := fst p, rhs := snd p)))
      else (this, st))"

text \<open>The outcome of a call whose return value is not used.\<close>

fun discard :: "('r, 's) result \<Rightarrow> (unit, 's) result" where
  "discard (Returned r s) = Returned () s"
| "discard (Threw e s) = Threw e s"
| "discard Undefined = Undefined"

section \<open>The representation invariant and the abstraction to a list\<close>

definition Vector_inv :: "'a Vector \<Rightarrow> bool" where
  "Vector_inv v =
     (m_size v \<le> m_capacity (m_data v) \<and>
      length (cells (m_data v)) = m_capacity (m_data v) \<and>
      (m_buffer (m_data v) = None) = (m_capacity (m_data v) = 0) \<and>
      list_all (\<lambda>c. c \<noteq> None) (take (m_size v) (cells (m_data v))) \<and>
      list_all (\<lambda>c. c = None) (drop (m_size v) (cells (m_data v))))"

definition elems :: "'a Vector \<Rightarrow> 'a list" where
  "elems v = map the (take (m_size v) (cells (m_data v)))"

text \<open>
  A vector that satisfies the invariant is determined by its pointer, its capacity and the
  list of its elements: \<open>vec b cap xs\<close>.
\<close>

definition vec :: "nat option \<Rightarrow> nat \<Rightarrow> 'a list \<Rightarrow> 'a Vector" where
  "vec b cap xs =
     \<lparr>m_data = \<lparr>m_buffer = b, m_capacity = cap,
                cells = map Some xs @ replicate (cap - length xs) None\<rparr>,
      m_size = length xs\<rparr>"

text \<open>
  The exception of the first element of a list on which a member function throws, if any;
  the constructor the relocation block uses for this element type, and what the block leaves
  in the old buffer when it returns.
\<close>

fun first_throw :: "('a \<Rightarrow> exn option) \<Rightarrow> 'a list \<Rightarrow> exn option" where
  "first_throw f [] = None"
| "first_throw f (x # xs) = (case f x of Some e \<Rightarrow> Some e | None \<Rightarrow> first_throw f xs)"

definition relocate_ctor :: "'a elem_type \<Rightarrow> 'a \<Rightarrow> exn option" where
  "relocate_ctor T =
     (if is_nothrow_move_constructible T \<or> \<not> is_copy_constructible T then move_ctor T
      else copy_ctor T)"

definition relocated :: "'a elem_type \<Rightarrow> 'a list \<Rightarrow> 'a list" where
  "relocated T xs =
     (if is_nothrow_move_constructible T \<or> \<not> is_copy_constructible T
      then map (moved_from T) xs else xs)"

text \<open>
  No copy or move constructor and no copy or move assignment of the element type throws on
  any value of the list.
\<close>

definition nothrow :: "'a elem_type \<Rightarrow> 'a list \<Rightarrow> bool" where
  "nothrow T xs =
     list_all (\<lambda>x. copy_ctor T x = None \<and> move_ctor T x = None \<and>
                    copy_assign T x = None \<and> move_assign T x = None) xs"

text \<open>
  The elements of a vector as the construction of a new object from \<open>args\<close> leaves them: an
  element passed as an rvalue is moved-from, nothing else changes.
\<close>

fun after_construct :: "'a elem_type \<Rightarrow> 'a ctor_args \<Rightarrow> 'a list \<Rightarrow> 'a list" where
  "after_construct T (MoveFrom (Element i)) xs = xs[i := moved_from T (xs ! i)]"
| "after_construct T (MoveFrom (Outside y)) xs = xs"
| "after_construct T (CopyFrom r) xs = xs"
| "after_construct T (Args r) xs = xs"

text \<open>
  The allocation of a block for \<open>n\<close> objects succeeds: the byte count \<^verbatim>\<open>n * sizeof(T)\<close> does
  not wrap (and \<^verbatim>\<open>sizeof(T)\<close> is at least \<open>1\<close>, as for every type of C++), and
  \<^verbatim>\<open>operator new\<close> returns a block for it.
\<close>

definition allocates :: "'a elem_type \<Rightarrow> allocator \<Rightarrow> nat \<Rightarrow> bool" where
  "allocates T A n = (0 < sizeof T \<and> n * sizeof T < 2 ^ 64 \<and> A (n * sizeof T) \<noteq> None)"

text \<open>
  The capacities a vector goes through as it grows from empty: each is computed from the one
  before as the code computes the new capacity. And the exception with which a reallocating
  append of a duplicated element type to the full vector of elements \<open>xs\<close> fails, if it
  does: the one thrown by the constructor of the new element, else the one thrown by the
  first element whose copy constructor throws.
\<close>

fun growth :: "nat \<Rightarrow> nat" where
  "growth 0 = 0"
| "growth (Suc k) = grown (growth k)"

definition append_failure :: "'a elem_type \<Rightarrow> 'a ctor_args \<Rightarrow> 'a list \<Rightarrow> exn option" where
  "append_failure T args xs =
     (case construct T args (map Some xs) of
        Dangling \<Rightarrow> None
      | Failed e \<Rightarrow> Some e
      | Built x c \<Rightarrow> first_throw (copy_ctor T) (after_construct T args xs))"

section \<open>Sequences of calls, and two element types\<close>

text \<open>
  The public mutating operations on one vector, with positions given as offsets from
  \<^verbatim>\<open>begin()\<close>. \<open>run\<close> applies a sequence of calls to a vector, going on after a call that threw
  (the caller caught the exception) with the state the call left; it is \<open>None\<close> when a
  call has undefined behaviour.
\<close>

datatype 'a call =
    Call_Reserve nat
  | Call_Resize nat
  | Call_PushBack "'a ref"
  | Call_EmplaceBack "'a ctor_args"
  | Call_PopBack
  | Call_Emplace nat "'a ctor_args"
  | Call_Insert nat "'a ref"
  | Call_Erase nat

fun state_of :: "('r, 's) result \<Rightarrow> 's option" where
  "state_of (Returned r s) = Some s"
| "state_of (Threw e s) = Some s"
| "state_of Undefined = None"

fun perform :: "'a elem_type \<Rightarrow> allocator \<Rightarrow> 'a call \<Rightarrow> 'a Vector \<Rightarrow> 'a Vector option" where
  "perform T A (Call_Reserve n) v = state_of (Reserve T A n v)"
| "perform T A (Call_Resize n) v = state_of (Resize T A n v)"
| "perform T A (Call_PushBack x) v = state_of (PushBack T A x v)"
| "perform T A (Call_EmplaceBack args) v = state_of (EmplaceBack T A args v)"
| "perform T A Call_PopBack v = state_of (PopBack v)"
| "perform T A (Call_Emplace i args) v = state_of (Emplace T A (ptr_add (Vector_begin v) i) args v)"
| "perform T A (Call_Insert i x) v = state_of (Insert T A (ptr_add (Vector_begin v) i) x v)"
| "perform T A (Call_Erase i) v = state_of (Erase T (ptr_add (Vector_begin v) i) v)"

fun run :: "'a elem_type \<Rightarrow> allocator \<Rightarrow> 'a call list \<Rightarrow> 'a Vector \<Rightarrow> 'a Vector option" where
  "run T A [] v = Some v"
| "run T A (c # cs) v = (case perform T A c v of None \<Rightarrow> None | Some v' \<Rightarrow> run T A cs v')"

text \<open>
  \<open>Throwing\<close>: an element type over \<open>nat\<close> of \<open>4\<close> bytes whose copy constructor and copy
  assignment throw on the value \<open>13\<close>, whose move constructor is not \<^verbatim>\<open>noexcept\<close> (so the
  code duplicates), and whose moved-from state is \<open>0\<close>. \<open>Plain\<close>: \<open>8\<close> bytes, nothing throws
  and the move constructor is \<^verbatim>\<open>noexcept\<close> (so the code relocates). \<open>new_block\<close> is an
  \<^verbatim>\<open>operator new\<close> that always succeeds.
\<close>

definition Throwing :: "nat elem_type" where
  "Throwing =
     \<lparr>copy_ctor = (\<lambda>x. if x = 13 then Some (elem_exn 1) else None),
      move_ctor = (\<lambda>x. None),
      copy_assign = (\<lambda>x. if x = 13 then Some (elem_exn 1) else None),
      move_assign = (\<lambda>x. None),
      moved_from = (\<lambda>x. 0),
      value_init = Inr 0,
      is_nothrow_move_constructible = False,
      is_copy_constructible = True,
      sizeof = 4\<rparr>"

definition Plain :: "nat elem_type" where
  "Plain =
     \<lparr>copy_ctor = (\<lambda>x. None),
      move_ctor = (\<lambda>x. None),
      copy_assign = (\<lambda>x. None),
      move_assign = (\<lambda>x. None),
      moved_from = (\<lambda>x. 0),
      value_init = Inr 0,
      is_nothrow_move_constructible = True,
      is_copy_constructible = True,
      sizeof = 8\<rparr>"

definition new_block :: allocator where
  "new_block n = Some (1000 + n)"

text \<open>A store of two vectors, \<open>[7]\<close> of capacity \<open>1\<close> and \<open>[13, 2]\<close> of capacity \<open>2\<close>.\<close>

definition two_vectors :: "nat store" where
  "two_vectors =
     (\<lambda>_. Vector_default)(0 := vec (Some 1001) 1 [7], 1 := vec (Some 1002) 2 [13, 2])"

section \<open>The standard algorithms on live ranges\<close>

lemma first_throw_None: "first_throw f xs = None \<longleftrightarrow> (\<forall>x\<in>set xs. f x = None)"
  by (induction xs) (auto split: option.splits)

lemma first_throw_take: "first_throw f xs = None \<Longrightarrow> first_throw f (take n xs) = None"
  by (auto simp: first_throw_None dest: in_set_takeD)

lemma first_throw_drop: "first_throw f xs = None \<Longrightarrow> first_throw f (drop n xs) = None"
  by (auto simp: first_throw_None dest: in_set_dropD)

lemma upd_mid: "length c = n \<Longrightarrow> (c @ y # d)[n := z] = c @ z # d"
  by (simp add: list_update_append)

lemma replicate_upd_split:
  "n < k \<Longrightarrow> (replicate k None)[n := Some x] = replicate n None @ Some x # replicate (k - Suc n) None"
proof -
  assume "n < k"
  then have "replicate k (None::'a option) = replicate n None @ None # replicate (k - Suc n) None"
    by (metis Suc_diff_Suc add_Suc_right le_add_diff_inverse less_imp_le_nat replicate_Suc replicate_add)
  then show ?thesis by (simp add: upd_mid)
qed

lemma replicate_join: "j \<le> k \<Longrightarrow> replicate j x @ replicate (k - j) x = replicate k x"
  by (simp flip: replicate_add)

lemma uninitialized_copy_n_Returned:
  "first_throw (copy_ctor T) xs = None \<Longrightarrow> length d = length xs \<Longrightarrow>
   uninitialized_copy_n T (a @ map Some xs @ b) (length a) (length xs) (c @ d @ e) (length c) =
     Returned () (c @ map Some xs @ e)"
proof (induction xs arbitrary: a c d)
  case Nil
  then show ?case by simp
next
  case (Cons x xs)
  then obtain y d0 where d: "d = y # d0" and len: "length d0 = length xs"
    by (cases d) auto
  from Cons.prems have x: "copy_ctor T x = None" and xs: "first_throw (copy_ctor T) xs = None"
    by (auto split: option.splits)
  from Cons.IH[OF xs len, of "a @ [Some x]" "c @ [Some x]"]
  show ?case
    using x by (simp add: d upd_mid)
qed

lemma uninitialized_copy_n_Threw:
  "first_throw (copy_ctor T) xs = Some ex \<Longrightarrow> length d = length xs \<Longrightarrow>
   \<exists>d'. uninitialized_copy_n T (a @ map Some xs @ b) (length a) (length xs) (c @ d @ e)
          (length c) = Threw ex d'"
proof (induction xs arbitrary: a c d)
  case Nil
  then show ?case by simp
next
  case (Cons x xs)
  then obtain y d0 where d: "d = y # d0" and len: "length d0 = length xs"
    by (cases d) auto
  show ?case
  proof (cases "copy_ctor T x")
    case (Some e')
    with Cons.prems show ?thesis by (simp add: d)
  next
    case None
    with Cons.prems have xs: "first_throw (copy_ctor T) xs = Some ex" by simp
    from Cons.IH[OF xs len, of "a @ [Some x]" "c @ [Some x]"]
    show ?thesis
      using None by (auto simp add: d upd_mid)
  qed
qed

lemma uninitialized_move_n_Returned:
  "first_throw (move_ctor T) xs = None \<Longrightarrow> length d = length xs \<Longrightarrow>
   uninitialized_move_n T (a @ map Some xs @ b) (length a) (length xs) (c @ d @ e) (length c) =
     Returned () (a @ map Some (map (moved_from T) xs) @ b, c @ map Some xs @ e)"
proof (induction xs arbitrary: a c d)
  case Nil
  then show ?case by simp
next
  case (Cons x xs)
  then obtain y d0 where d: "d = y # d0" and len: "length d0 = length xs"
    by (cases d) auto
  from Cons.prems have x: "move_ctor T x = None" and xs: "first_throw (move_ctor T) xs = None"
    by (auto split: option.splits)
  from Cons.IH[OF xs len, of "a @ [Some (moved_from T x)]" "c @ [Some x]"]
  show ?case
    using x by (simp add: d upd_mid)
qed


lemma destroy_n_live:
  "destroy_n (a @ map Some xs @ b) (length a) (length xs) =
     Some (a @ replicate (length xs) None @ b)"
proof (induction xs arbitrary: a)
  case Nil
  then show ?case by simp
next
  case (Cons x xs)
  from Cons.IH[of "a @ [None]"] show ?case
    by (simp add: upd_mid replicate_app_Cons_same)
qed


lemma copy_n_Returned:
  "first_throw (copy_assign T) xs = None \<Longrightarrow> length ys = length xs \<Longrightarrow>
   copy_n T (a @ map Some xs @ b) (length a) (length xs) (c @ map Some ys @ e) (length c) =
     Returned () (c @ map Some xs @ e)"
proof (induction xs arbitrary: a c ys)
  case Nil
  then show ?case by simp
next
  case (Cons x xs)
  then obtain y d0 where d: "ys = y # d0" and len: "length d0 = length xs"
    by (cases ys) auto
  from Cons.prems have x: "copy_assign T x = None" and xs: "first_throw (copy_assign T) xs = None"
    by (auto split: option.splits)
  from Cons.IH[OF xs len, of "a @ [Some x]" "c @ [Some x]"]
  show ?case
    using x by (simp add: d upd_mid)
qed

lemma std_move_n_Returned:
  "first_throw (move_assign T) xs = None \<Longrightarrow>
   std_move_n T (a @ Some y # map Some xs @ b) (Suc (length a)) (length xs) (length a) =
     Returned () (a @ map Some xs @ Some (if xs = [] then y else moved_from T (last xs)) # b)"
proof (induction xs arbitrary: a y)
  case Nil
  then show ?case by simp
next
  case (Cons x xs)
  from Cons.prems have x: "move_assign T x = None" and xs: "first_throw (move_assign T) xs = None"
    by (auto split: option.splits)
  from Cons.IH[OF xs, of "a @ [Some x]" "moved_from T x"]
  show ?case
    using x by (simp add: nth_append list_update_append)
qed

lemma move_backward_n_Returned:
  "first_throw (move_assign T) xs = None \<Longrightarrow>
   move_backward_n T (a @ map Some xs @ Some y # b) (length a) (length xs)
       (Suc (length a + length xs)) =
     Returned () (a @ Some (if xs = [] then y else moved_from T (hd xs)) # map Some xs @ b)"
proof (induction xs arbitrary: y b rule: rev_induct)
  case Nil
  then show ?case by simp
next
  case (snoc x xs)
  from snoc.prems have x: "move_assign T x = None" and xs: "first_throw (move_assign T) xs = None"
    by (auto simp: first_throw_None)
  from snoc.IH[OF xs, of "moved_from T x" "Some x # b"]
  show ?case
    using x by (simp add: nth_append list_update_append)
qed

lemma relocate_n_Returned:
  assumes "first_throw (relocate_ctor T) xs = None" "length d = length xs"
  shows "relocate_n T (a @ map Some xs @ b) (length a) (length xs) (c @ d @ e) (length c) =
     Returned () (a @ map Some (relocated T xs) @ b, c @ map Some xs @ e)"
proof (cases "is_nothrow_move_constructible T \<or> \<not> is_copy_constructible T")
  case True
  with assms have "first_throw (move_ctor T) xs = None" by (simp add: relocate_ctor_def)
  from uninitialized_move_n_Returned[OF this assms(2), of a b c e] True
  show ?thesis by (simp only: relocate_n_def relocated_def if_True)
next
  case False
  with assms have "first_throw (copy_ctor T) xs = None" by (simp add: relocate_ctor_def)
  from uninitialized_copy_n_Returned[OF this assms(2), of a b c e] False
  show ?thesis by (simp only: relocate_n_def relocated_def if_False result.case)
qed


lemma length_relocated [simp]: "length (relocated T xs) = length xs"
  by (simp add: relocated_def)

lemma nothrow_first_throw:
  assumes "nothrow T xs"
  shows "first_throw (copy_ctor T) xs = None" "first_throw (move_ctor T) xs = None"
    "first_throw (copy_assign T) xs = None" "first_throw (move_assign T) xs = None"
    "first_throw (relocate_ctor T) xs = None"
  using assms by (auto simp: nothrow_def first_throw_None list_all_iff relocate_ctor_def)

lemma nothrow_Cons [simp]:
  "nothrow T (x # xs) =
     (copy_ctor T x = None \<and> move_ctor T x = None \<and> copy_assign T x = None \<and>
      move_assign T x = None \<and> nothrow T xs)"
  by (auto simp: nothrow_def)

lemma nothrow_mem: "nothrow T xs \<Longrightarrow> x \<in> set xs \<Longrightarrow> move_ctor T x = None"
  by (auto simp: nothrow_def list_all_iff)

section \<open>Vectors that satisfy the invariant\<close>

lemma RawMemory_eta:
  "\<lparr>m_buffer = m_buffer m, m_capacity = m_capacity m, cells = cells m\<rparr> = m"
  by (cases m) simp

lemma Vector_eta: "\<lparr>m_data = m_data v, m_size = m_size v\<rparr> = v"
  by (cases v) simp

lemma elems_vec [simp]: "elems (vec b cap xs) = xs"
  by (simp add: elems_def vec_def comp_def)

lemma vec_sel [simp]:
  "m_size (vec b cap xs) = length xs"
  "m_capacity (m_data (vec b cap xs)) = cap"
  "m_buffer (m_data (vec b cap xs)) = b"
  "Capacity (vec b cap xs) = cap"
  "Size (vec b cap xs) = length xs"
  by (simp_all add: vec_def Capacity_def Size_def)

lemma cells_vec: "cells (m_data (vec b cap xs)) = map Some xs @ replicate (cap - length xs) None"
  by (simp add: vec_def)

lemma Vector_inv_vec [simp]:
  "Vector_inv (vec b cap xs) = (length xs \<le> cap \<and> (b = None) = (cap = 0))"
  by (auto simp add: Vector_inv_def vec_def list_all_iff)

lemma live_prefix: "list_all (\<lambda>c. c \<noteq> None) ys \<Longrightarrow> map Some (map the ys) = ys"
  by (induction ys) auto

lemma dead_suffix: "list_all (\<lambda>c. c = None) ys \<Longrightarrow> ys = replicate (length ys) None"
  by (induction ys) auto

lemma Vector_inv_eq_vec:
  assumes "Vector_inv v"
  shows "v = vec (m_buffer (m_data v)) (m_capacity (m_data v)) (elems v)"
proof -
  let ?c = "cells (m_data v)"
  from assms have len: "length ?c = m_capacity (m_data v)" and le: "m_size v \<le> m_capacity (m_data v)"
    and live: "list_all (\<lambda>c. c \<noteq> None) (take (m_size v) ?c)"
    and dead: "list_all (\<lambda>c. c = None) (drop (m_size v) ?c)"
    by (simp_all add: Vector_inv_def)
  have "?c = take (m_size v) ?c @ drop (m_size v) ?c" by simp
  also have "take (m_size v) ?c = map Some (elems v)"
    using live_prefix[OF live] by (simp add: elems_def)
  also have "drop (m_size v) ?c = replicate (m_capacity (m_data v) - m_size v) None"
    using dead_suffix[OF dead] len by simp
  finally have c: "?c = map Some (elems v) @ replicate (m_capacity (m_data v) - m_size v) None" .
  have l: "length (elems v) = m_size v" using len le by (simp add: elems_def)
  have "cells (m_data v) = cells (m_data (vec (m_buffer (m_data v)) (m_capacity (m_data v)) (elems v)))"
    using c l by (simp add: vec_def)
  then show ?thesis using l
    by (simp add: vec_def)
qed

lemma Vector_inv_cases:
  assumes "Vector_inv v"
  obtains b cap xs where "v = vec b cap xs" "length xs \<le> cap" "(b = None) = (cap = 0)"
proof -
  from Vector_inv_eq_vec[OF assms] obtain b cap xs where v: "v = vec b cap xs" by blast
  with assms have "length xs \<le> cap" "(b = None) = (cap = 0)" by simp_all
  with v show ?thesis by (rule that)
qed

lemma Vector_default_vec: "Vector_default = vec None 0 []"
  by (simp add: Vector_default_def RawMemory_default_def vec_def)

lemma Vector_begin_vec [simp]: "Vector_begin (vec b cap xs) = Ptr b 0"
  by (simp add: Vector_begin_def GetAddress_def)

lemma Vector_end_vec [simp]: "Vector_end (vec b cap xs) = Ptr b (length xs)"
  by (simp add: Vector_end_def GetAddress_def)

lemma Vector_index_vec: "i < length xs \<Longrightarrow> length xs \<le> cap \<Longrightarrow> Vector_index (vec b cap xs) i = Some (xs ! i)"
  by (simp add: Vector_index_def cells_vec nth_append)

lemma less_grown: "n < grown n"
  by (simp add: grown_def)

lemma grown_pos [simp]: "0 < grown n" "grown n \<noteq> 0"
  by (simp_all add: grown_def)

lemma growth_Suc_pow: "growth (Suc k) = 2 ^ k"
  by (induction k) (simp_all add: grown_def)

lemma size_t_mul_fits:
  "0 < s \<Longrightarrow> n * s < 2 ^ 64 \<Longrightarrow> size_t_mul n s = n * s \<and> size_t_mul n s div s = n"
  by (simp add: size_t_mul_def)

lemma RawMemory_sized_ok:
  "allocates T A n \<Longrightarrow> A (n * sizeof T) = Some p \<Longrightarrow> 0 < n \<Longrightarrow>
   RawMemory_sized T A n = Inr \<lparr>m_buffer = Some p, m_capacity = n, cells = replicate n None\<rparr>"
  by (simp add: RawMemory_sized_def Allocate_def allocates_def size_t_mul_fits)

lemma allocatesE:
  assumes "allocates T A n"
  obtains p where "A (n * sizeof T) = Some p"
  using assms by (auto simp: allocates_def)

lemma after_construct_length [simp]: "length (after_construct T args xs) = length xs"
  by (cases "(T, args, xs)" rule: after_construct.cases) simp_all

lemma after_construct_not_moved:
  "\<forall>i. args \<noteq> MoveFrom (Element i) \<Longrightarrow> after_construct T args xs = xs"
  by (cases "(T, args, xs)" rule: after_construct.cases) simp_all

lemma construct_live:
  assumes "construct T args (map Some xs @ replicate k None) = Built x c"
  shows "c = map Some (after_construct T args xs) @ replicate k None"
proof (cases "(T, args, xs)" rule: after_construct.cases)
  case (1 T' i xs')
  then have a: "args = MoveFrom (Element i)" by simp
  let ?buf = "map Some xs @ replicate k None"
  from assms a obtain y where y: "i < length ?buf" "?buf ! i = Some y" "move_ctor T y = None"
    "x = y" "c = ?buf[i := Some (moved_from T y)]"
    by (auto split: option.splits if_splits)
  have i: "i < length xs"
  proof (rule ccontr)
    assume "\<not> i < length xs"
    with y(1) have "?buf ! i = None" by (simp add: nth_append)
    with y(2) show False by simp
  qed
  with y(2) have "y = xs ! i" by (simp add: nth_append)
  with y(5) i show ?thesis by (simp add: a list_update_append map_update)
next
  case (2 T' y xs')
  with assms show ?thesis by (auto split: option.splits)
next
  case (3 T' r xs')
  with assms show ?thesis by (auto split: option.splits)
next
  case (4 T' r xs')
  with assms show ?thesis by (auto split: sum.splits)
qed

lemma construct_cells:
  assumes "construct T args (cells (m_data (vec b cap xs))) = Built x c"
  shows "c = cells (m_data (vec b cap (after_construct T args xs)))"
  using construct_live[of T args xs "cap - length xs" x c] assms by (simp add: cells_vec)

lemma construct_full:
  "construct T args (map Some xs) = construct T args (cells (m_data (vec b (length xs) xs)))"
  by (simp add: cells_vec)

lemma construct_moved_element:
  assumes "construct T (MoveFrom (Element i)) (cells (m_data (vec b cap xs))) = Built x c"
  shows "i < length xs \<and> x = xs ! i"
proof -
  let ?buf = "map Some xs @ replicate (cap - length xs) None"
  from assms obtain y where y: "i < length ?buf" "?buf ! i = Some y" "x = y"
    by (auto simp: cells_vec split: option.splits if_splits)
  have i: "i < length xs"
  proof (rule ccontr)
    assume "\<not> i < length xs"
    with y(1) have "?buf ! i = None" by (simp add: nth_append)
    with y(2) show False by simp
  qed
  with y show ?thesis by (simp add: nth_append)
qed

section \<open>Appending\<close>

lemma cells_push:
  "length xs < cap \<Longrightarrow>
   (map Some xs @ replicate (cap - length xs) None)[length xs := Some x] =
     map Some (xs @ [x]) @ replicate (cap - Suc (length xs)) None"
  by (simp add: list_update_append replicate_upd_split)

lemma EmplaceBack_in_place:
  assumes lt: "length xs < cap"
    and ctor: "construct T args (cells (m_data (vec b cap xs))) = Built x c"
  shows "EmplaceBack T A args (vec b cap xs) =
           Returned (Ptr b (length xs)) (vec b cap (after_construct T args xs @ [x]))"
proof -
  let ?ys = "after_construct T args xs"
  have c: "c = map Some ?ys @ replicate (cap - length xs) None"
    using construct_cells[OF ctor] by (simp add: cells_vec)
  have l: "length ?ys < cap" using lt by simp
  have p: "(map Some ?ys @ replicate (cap - length xs) None)[length xs := Some x] =
             map Some (?ys @ [x]) @ replicate (cap - Suc (length xs)) None"
    using cells_push[OF l, of x] by simp
  show ?thesis
    using lt
    by (simp add: EmplaceBack_def RawMemory_plus_def placement_new_def GetAddress_def ctor c p)
       (simp add: vec_def)
qed

lemma grow_steps:
  fixes xs :: "'a list" and nc :: nat
  assumes nc: "length xs < nc"
    and reloc: "first_throw (relocate_ctor T) xs = None"
  shows "placement_new (replicate nc None) (length xs) x =
           Some (replicate (length xs) None @ Some x # replicate (nc - Suc (length xs)) None)"
    and "relocate_n T (map Some xs) 0 (length xs)
           (replicate (length xs) None @ Some x # replicate (nc - Suc (length xs)) None) 0 =
         Returned () (map Some (relocated T xs),
                      map Some (xs @ [x]) @ replicate (nc - Suc (length xs)) None)"
    and "destroy_n (map Some (relocated T xs)) 0 (length xs) \<noteq> None"
proof -
  show "placement_new (replicate nc None) (length xs) x =
           Some (replicate (length xs) None @ Some x # replicate (nc - Suc (length xs)) None)"
    using nc by (simp add: placement_new_def replicate_upd_split)
  show "relocate_n T (map Some xs) 0 (length xs)
           (replicate (length xs) None @ Some x # replicate (nc - Suc (length xs)) None) 0 =
         Returned () (map Some (relocated T xs),
                      map Some (xs @ [x]) @ replicate (nc - Suc (length xs)) None)"
    using relocate_n_Returned[OF reloc, of "replicate (length xs) None" "[]" "[]" "[]"
            "Some x # replicate (nc - Suc (length xs)) None"]
    by simp
  show "destroy_n (map Some (relocated T xs)) 0 (length xs) \<noteq> None"
    using destroy_n_live[of "[]" "relocated T xs" "[]"] by simp
qed

lemma EmplaceBack_realloc:
  assumes full: "\<not> length xs < cap"
    and alloc: "allocates T A (grown (length xs))"
    and q: "A (grown (length xs) * sizeof T) = Some p"
    and ctor: "construct T args (cells (m_data (vec b cap xs))) = Built x c"
    and reloc: "first_throw (relocate_ctor T) (after_construct T args xs) = None"
  shows "EmplaceBack T A args (vec b cap xs) =
           Returned (Ptr (Some p) (length xs))
             (vec (Some p) (grown (length xs)) (after_construct T args xs @ [x]))"
proof -
  let ?ys = "after_construct T args xs"
  have nc: "length xs < grown (length xs)" by (rule less_grown)
  then have nc': "length ?ys < grown (length xs)" by simp
  have c: "c = map Some ?ys"
    using construct_cells[OF ctor] full by (simp add: cells_vec)
  have a: "RawMemory_sized T A (grown (length xs)) =
             Inr \<lparr>m_buffer = Some p, m_capacity = grown (length xs),
                  cells = replicate (grown (length xs)) None\<rparr>"
    using alloc q nc by (simp add: RawMemory_sized_ok)
  note g = grow_steps[OF nc' reloc, unfolded after_construct_length]
  from g(3) obtain old where d: "destroy_n (map Some (relocated T ?ys)) 0 (length xs) = Some old"
    by blast
  show ?thesis
    unfolding EmplaceBack_def
    using full nc
    by (simp add: a c g(1) g(2) d ctor RawMemory_plus_def GetAddress_def Let_def
          vec_def[of "Some p"])
qed

lemma EmplaceBack_vec:
  assumes le: "length xs \<le> cap"
    and ctor: "construct T args (cells (m_data (vec b cap xs))) = Built x c"
    and reloc: "first_throw (relocate_ctor T) (after_construct T args xs) = None"
    and alloc: "length xs = cap \<longrightarrow>
                  allocates T A (grown (length xs)) \<and> A (grown (length xs) * sizeof T) = Some q"
  shows "EmplaceBack T A args (vec b cap xs) =
           Returned (Ptr (if length xs < cap then b else Some q) (length xs))
             (vec (if length xs < cap then b else Some q)
                  (if length xs < cap then cap else grown (length xs))
                  (after_construct T args xs @ [x]))"
proof (cases "length xs < cap")
  case True
  then show ?thesis by (simp add: EmplaceBack_in_place[OF True ctor])
next
  case False
  with le alloc have a: "allocates T A (grown (length xs))"
    "A (grown (length xs) * sizeof T) = Some q" by simp_all
  have "EmplaceBack T A args (vec b cap xs) =
          Returned (Ptr (Some q) (length xs))
            (vec (Some q) (grown (length xs)) (after_construct T args xs @ [x]))"
    using False a ctor reloc by (rule EmplaceBack_realloc)
  with False show ?thesis by simp
qed

lemma PushBack_fwd_eq: "PushBack_fwd T A args v = discard (EmplaceBack T A args v)"
  by (simp add: PushBack_fwd_def EmplaceBack_def Let_def
        split: option.splits sum.splits result.splits construction.splits)

lemma PushBack_eq: "PushBack T A r v = discard (EmplaceBack T A (CopyFrom r) v)"
  by (simp add: PushBack_def EmplaceBack_def Let_def
        split: option.splits sum.splits result.splits construction.splits)

lemma PushBack_vec:
  assumes le: "length xs \<le> cap"
    and cp: "copy_ctor T x = None"
    and reloc: "first_throw (relocate_ctor T) xs = None"
    and alloc: "length xs = cap \<longrightarrow>
                  allocates T A (grown (length xs)) \<and> A (grown (length xs) * sizeof T) = Some q"
  shows "PushBack T A (Outside x) (vec b cap xs) =
           Returned ()
             (vec (if length xs < cap then b else Some q)
                  (if length xs < cap then cap else grown (length xs))
                  (xs @ [x]))"
proof -
  have ctor: "construct T (CopyFrom (Outside x)) (cells (m_data (vec b cap xs))) =
                Built x (cells (m_data (vec b cap xs)))"
    using cp by simp
  have reloc': "first_throw (relocate_ctor T) (after_construct T (CopyFrom (Outside x)) xs) = None"
    using reloc by simp
  have "EmplaceBack T A (CopyFrom (Outside x)) (vec b cap xs) =
           Returned (Ptr (if length xs < cap then b else Some q) (length xs))
             (vec (if length xs < cap then b else Some q)
                  (if length xs < cap then cap else grown (length xs))
                  (after_construct T (CopyFrom (Outside x)) xs @ [x]))"
    using le ctor reloc' alloc by (rule EmplaceBack_vec)
  then show ?thesis by (simp add: PushBack_eq)
qed

lemma grown_le_twice: "grown n \<le> 2 * Suc n"
  by (simp add: grown_def)

lemma run_PushBack:
  assumes cp: "\<forall>y\<in>set ys. copy_ctor T y = None"
    and reloc: "\<forall>y\<in>set (xs @ ys). relocate_ctor T y = None"
    and alloc: "\<forall>n. A n \<noteq> None"
    and sz: "0 < sizeof T"
    and fit: "2 * (length xs + length ys) * sizeof T < 2 ^ 64"
    and le: "length xs \<le> growth k"
    and lo: "\<forall>j<k. growth j < length xs"
    and b: "(b = None) = (growth k = 0)"
  shows "\<exists>b' k'. run T A (map (\<lambda>y. Call_PushBack (Outside y)) ys) (vec b (growth k) xs) =
                    Some (vec b' (growth k') (xs @ ys)) \<and>
                  length (xs @ ys) \<le> growth k' \<and> (\<forall>j<k'. growth j < length (xs @ ys)) \<and>
                  (b' = None) = (growth k' = 0)"
  using assms
proof (induction ys arbitrary: xs k b)
  case Nil
  show ?case
    by (rule exI[of _ b], rule exI[of _ k]) (use Nil in simp)
next
  case (Cons y ys)
  have r: "first_throw (relocate_ctor T) xs = None"
    using Cons.prems(2) by (simp add: first_throw_None)
  have c: "copy_ctor T y = None" using Cons.prems(1) by simp
  obtain q where q: "A (grown (length xs) * sizeof T) = Some q"
    using Cons.prems(3) by (metis not_Some_eq)
  have "grown (length xs) * sizeof T \<le> 2 * (length xs + length (y # ys)) * sizeof T"
    using grown_le_twice[of "length xs"] by (intro mult_le_mono1) simp
  with Cons.prems(5) have "grown (length xs) * sizeof T < 2 ^ 64" by simp
  with Cons.prems(3,4) have al: "allocates T A (grown (length xs))"
    by (simp add: allocates_def)
  let ?b' = "if length xs < growth k then b else Some q"
  let ?c' = "if length xs < growth k then growth k else grown (length xs)"
  have P: "PushBack T A (Outside y) (vec b (growth k) xs) = Returned () (vec ?b' ?c' (xs @ [y]))"
    using Cons.prems(6) c r by (rule PushBack_vec) (use q al in auto)
  have fit': "2 * (length (xs @ [y]) + length ys) * sizeof T < 2 ^ 64"
    using Cons.prems(5) by simp
  show ?case
  proof (cases "length xs < growth k")
    case True
    have "\<exists>b' k'. run T A (map (\<lambda>y. Call_PushBack (Outside y)) ys) (vec b (growth k) (xs @ [y])) =
                    Some (vec b' (growth k') ((xs @ [y]) @ ys)) \<and>
                  length ((xs @ [y]) @ ys) \<le> growth k' \<and>
                  (\<forall>j<k'. growth j < length ((xs @ [y]) @ ys)) \<and>
                  (b' = None) = (growth k' = 0)"
      using Cons.prems(1,2,3,4,7,8) True fit'
      by (intro Cons.IH) (auto intro: less_SucI)
    with P True show ?thesis by simp
  next
    case False
    with Cons.prems(6) have eq: "length xs = growth k" by simp
    have g: "grown (length xs) = growth (Suc k)" by (simp add: eq)
    have "\<exists>b' k'. run T A (map (\<lambda>y. Call_PushBack (Outside y)) ys)
                     (vec (Some q) (growth (Suc k)) (xs @ [y])) =
                    Some (vec b' (growth k') ((xs @ [y]) @ ys)) \<and>
                  length ((xs @ [y]) @ ys) \<le> growth k' \<and>
                  (\<forall>j<k'. growth j < length ((xs @ [y]) @ ys)) \<and>
                  (b' = None) = (growth k' = 0)"
    proof (intro Cons.IH)
      show "length (xs @ [y]) \<le> growth (Suc k)"
        using less_grown[of "length xs"] by (simp add: eq)
      show "\<forall>j<Suc k. growth j < length (xs @ [y])"
        using Cons.prems(7) eq by (auto simp: less_Suc_eq intro: less_SucI)
      show "(Some q = None) = (growth (Suc k) = 0)" by simp
      show "2 * (length (xs @ [y]) + length ys) * sizeof T < 2 ^ 64" by (rule fit')
    qed (use Cons.prems in auto)
    with P False g show ?thesis by simp
  qed
qed

section \<open>Reserve, Resize, PopBack and Erase\<close>



lemma PopBack_ok:
  assumes "xs \<noteq> []" "length xs \<le> cap"
  shows "PopBack (vec b cap xs) = Returned () (vec b cap (butlast xs))"
proof -
  from assms obtain ys y where xs: "xs = ys @ [y]" by (metis rev_exhaust)
  have c: "cells (m_data (vec b cap xs)) = map Some ys @ map Some [y] @ replicate (cap - length xs) None"
    by (simp add: cells_vec xs)
  have j: "replicate (length [y]) None @ replicate (cap - length xs) (None::'a option) =
           replicate (cap - length ys) None"
    using assms(2) replicate_join[of 1 "cap - length ys" "None::'a option"] by (simp add: xs)
  have d: "destroy_n (cells (m_data (vec b cap xs))) (length ys) 1 =
          Some (map Some ys @ replicate (cap - length ys) None)"
    unfolding c using destroy_n_live[of "map Some ys" "[y]" "replicate (cap - length xs) None"]
    by (simp only: j length_map) simp
  show ?thesis
    unfolding PopBack_def using d by (simp add: xs) (simp add: vec_def)
qed






lemma Erase_ok:
  assumes p: "p < length xs" and le: "length xs \<le> cap"
    and mv: "first_throw (move_assign T) (drop (Suc p) xs) = None"
  shows "Erase T (Ptr b p) (vec b cap xs) =
           Returned (Ptr b p) (vec b cap (take p xs @ drop (Suc p) xs))"
proof -
  let ?a = "take p xs" and ?r = "drop (Suc p) xs"
  let ?tail = "replicate (cap - length xs) (None::'a option)"
  define w where "w = (if ?r = [] then xs ! p else moved_from T (last ?r))"
  have xs: "xs = ?a @ xs ! p # ?r"
    using p by (simp add: id_take_nth_drop)
  have "map Some xs = map Some (?a @ xs ! p # ?r)"
    using xs by simp
  then have c: "cells (m_data (vec b cap xs)) = map Some ?a @ Some (xs ! p) # map Some ?r @ ?tail"
    by (simp add: cells_vec)
  have lr: "length xs - Suc p = length ?r" by simp
  have la: "p = length (map Some ?a)" using p by simp
  have m: "std_move T (cells (m_data (vec b cap xs))) (Suc p) (length xs) p =
           Returned () (map Some ?a @ map Some ?r @ Some w # ?tail)"
    unfolding std_move_def c w_def
    using std_move_n_Returned[OF mv, of "map Some ?a" "xs ! p" ?tail] p
    by (simp add: min_absorb2)
  have len: "length (?a @ ?r @ [w]) = length xs" using p by simp
  have v1: "\<lparr>m_data = (m_data (vec b cap xs))\<lparr>cells := map Some ?a @ map Some ?r @ Some w # ?tail\<rparr>,
            m_size = length xs\<rparr> = vec b cap (?a @ ?r @ [w])"
    using len by (simp add: vec_def)
  have pb: "PopBack (vec b cap (?a @ ?r @ [w])) = Returned () (vec b cap (?a @ ?r))"
    using PopBack_ok[of "?a @ ?r @ [w]" cap b] le len
    by (simp add: butlast_append)
  show ?thesis
    unfolding Erase_def
    by (simp add: cbegin_def GetAddress_def m v1 pb Vector_begin_def del: append_take_drop_id)
qed

section \<open>Emplace\<close>

lemma Emplace_in_place_ok:
  assumes p: "p < length xs" and cap: "length xs < cap"
    and ctor: "construct T args (cells (m_data (vec b cap xs))) = Built x c"
    and mc: "move_ctor T (last (after_construct T args xs)) = None"
    and ma: "first_throw (move_assign T) (drop p (butlast (after_construct T args xs))) = None"
    and mx: "move_assign T x = None"
  shows "Emplace_in_place T p args (vec b cap xs) =
           Returned (Ptr b p)
             (vec b cap (take p (after_construct T args xs) @ x #
                         drop p (after_construct T args xs)))"
proof -
  define zs where "zs = after_construct T args xs"
  define ys where "ys = butlast zs"
  define y where "y = last zs"
  define rest where "rest = replicate (cap - Suc (length xs)) (None::'a option)"
  define a where "a = take p ys"
  define ms where "ms = drop p ys"
  define w where "w = (if ms = [] then moved_from T y else moved_from T (hd ms))"
  have lz: "length zs = length xs" by (simp add: zs_def)
  have cz: "c = cells (m_data (vec b cap zs))"
    unfolding zs_def using ctor by (rule construct_cells)
  from p lz have "zs \<noteq> []" by auto
  then have zs: "zs = ys @ [y]" by (simp add: ys_def y_def)
  have lys: "length xs = Suc (length ys)" using lz by (simp add: zs)
  have pys: "p \<le> length ys" using p lys by simp
  have la: "length a = p" using pys by (simp add: a_def)
  have lms: "length ms = length ys - p" by (simp add: ms_def)
  have ys: "ys = a @ ms" by (simp add: a_def ms_def)
  have tail: "replicate (cap - length xs) (None::'a option) = None # rest"
    using cap by (cases "cap - length xs") (auto simp: rest_def)
  have c: "c = map Some ys @ Some y # None # rest"
    by (simp add: cz cells_vec lz tail) (simp add: zs)
  let ?v = "vec b cap xs"
  let ?C1 = "map Some a @ map Some ms @ Some (moved_from T y) # Some y # rest"
  let ?C2 = "map Some a @ Some w # map Some ms @ Some y # rest"
  have f0: "(m_size ?v = 0) = False" using p by auto
  have f1: "RawMemory_plus (m_data ?v) (m_size ?v) = Some (Ptr b (length xs))"
    using cap by (simp add: RawMemory_plus_def GetAddress_def)
  have f2: "RawMemory_index (m_data ?v) (m_size ?v - 1) = Some (length ys)"
    using cap by (simp add: RawMemory_index_def lys)
  have f3: "(length ys < length c) = True"
    by (simp add: c)
  have nth: "c ! length ys = Some y"
    by (simp add: c nth_append)
  have mc': "move_ctor T y = None" using mc by (simp add: y_def zs_def)
  have c1: "placement_new (c[length ys := Some (moved_from T y)]) (m_size ?v) y = Some ?C1"
    by (simp add: c placement_new_def list_update_append ys lys)
  have ma': "first_throw (move_assign T) ms = None"
    using ma by (simp add: ms_def ys_def zs_def)
  have e: "length (map Some a) = p" "length ms = length ys - p"
    "Suc (p + (length ys - p)) = Suc (length ys)"
    using la lms pys by simp_all
  have "move_backward_n T ?C1
          (length (map Some a)) (length ms) (Suc (length (map Some a) + length ms)) =
        Returned () ?C2"
    unfolding w_def by (rule move_backward_n_Returned[OF ma'])
  then have mbn: "move_backward_n T ?C1 p (length ys - p) (Suc (length ys)) = Returned () ?C2"
    by (simp only: e)
  have mb': "move_backward T ?C1 p (length ys) (Suc (length ys)) = Returned () ?C2"
    unfolding move_backward_def using pys mbn by (simp only: if_True)
  have mb: "move_backward T ?C1 p (m_size ?v - 1) (m_size ?v) = Returned () ?C2"
    using mb' by (simp add: lys)
  have f5: "RawMemory_index (m_data ?v) p = Some p"
    using p cap by (simp add: RawMemory_index_def)
  have lt: "(p < length ?C2) = True"
    using la by simp
  have nthp: "?C2 ! p = Some w"
    using la by (simp add: nth_append)
  have tk: "take p zs = a" using pys by (simp add: zs a_def)
  have dr: "drop p zs = ms @ [y]" using pys by (simp add: zs ms_def)
  have res: "\<lparr>m_data = (m_data ?v)\<lparr>cells := ?C2[p := Some x]\<rparr>, m_size = m_size ?v + 1\<rparr> =
             vec b cap (take p zs @ x # drop p zs)"
    using p cap la by (simp add: vec_def tk dr lms rest_def lys upd_mid)
  have ptr: "ptr_add (Vector_begin (vec b cap (take p zs @ x # drop p zs))) p = Ptr b p"
    by (simp add: Vector_begin_def GetAddress_def)
  have "Emplace_in_place T p args (vec b cap xs) =
           Returned (Ptr b p) (vec b cap (take p zs @ x # drop p zs))"
    unfolding Emplace_in_place_def
    by (simp only: ctor f0 f1 f2 f3 nth mc' c1 mb f5 lt nthp mx res ptr construction.case
          sum.case option.case result.case prod.case if_True if_False Let_def)
  then show ?thesis by (simp only: zs_def)
qed

lemma Emplace_realloc_ok:
  assumes p: "p \<le> length xs" and full: "\<not> length xs < cap"
    and alloc: "allocates T A (grown (length xs))"
    and q: "A (grown (length xs) * sizeof T) = Some q"
    and ctor: "construct T args (cells (m_data (vec b cap xs))) = Built x c"
    and reloc: "first_throw (relocate_ctor T) (after_construct T args xs) = None"
  shows "Emplace_realloc T A p args (vec b cap xs) =
           Returned (Ptr (Some q) p)
             (vec (Some q) (grown (length xs))
                (take p (after_construct T args xs) @ x # drop p (after_construct T args xs)))"
proof -
  define zs where "zs = after_construct T args xs"
  define nc where "nc = grown (length xs)"
  define pre where "pre = take p zs"
  define suf where "suf = drop p zs"
  define rest where "rest = replicate (nc - Suc (length xs)) (None::'a option)"
  let ?v = "vec b cap xs"
  let ?nd = "\<lparr>m_buffer = Some q, m_capacity = nc, cells = replicate nc (None::'a option)\<rparr>"
  let ?c0 = "replicate p None @ Some x # replicate (length suf) None @ rest"
  let ?s1 = "map Some (relocated T pre) @ map Some suf"
  let ?d1 = "map Some pre @ Some x # replicate (length suf) None @ rest"
  let ?s2 = "map Some (relocated T pre) @ map Some (relocated T suf)"
  let ?d2 = "map Some pre @ Some x # map Some suf @ rest"
  have lz: "length zs = length xs" by (simp add: zs_def)
  have cz: "c = cells (m_data (vec b cap zs))"
    unfolding zs_def using ctor by (rule construct_cells)
  have reloc': "first_throw (relocate_ctor T) zs = None" using reloc by (simp add: zs_def)
  have nc: "length xs < nc" by (simp add: nc_def less_grown)
  have zs: "zs = pre @ suf" by (simp add: pre_def suf_def)
  have lpre: "length pre = p" using p lz by (simp add: pre_def)
  have lsuf: "length suf = length xs - p" using lz by (simp add: suf_def)
  have c: "c = map Some pre @ map Some suf"
    using full lz by (simp add: cz cells_vec zs)
  have r0: "RawMemory_sized T A (grown (m_size ?v)) = Inr ?nd"
    using alloc q nc by (simp add: RawMemory_sized_ok nc_def)
  have tl: "replicate (nc - Suc p) (None::'a option) = replicate (length suf) None @ rest"
    using nc p by (simp add: rest_def lsuf flip: replicate_add)
  have pn: "placement_new (cells ?nd) p x = Some ?c0"
    using nc p by (simp add: placement_new_def replicate_upd_split tl)
  have r1: "relocate_n T c 0 p ?c0 0 = Returned () (?s1, ?d1)"
    using relocate_n_Returned[of T pre "replicate p None" "[]" "map Some suf" "[]"
            "Some x # replicate (length suf) None @ rest"]
          first_throw_take[OF reloc', of p] lpre
    by (simp add: c pre_def)
  have f: "(m_size ?v < p) = False" using p by simp
  have r2: "relocate_n T ?s1 p (m_size ?v - p) ?d1 (p + 1) = Returned () (?s2, ?d2)"
    using relocate_n_Returned[of T suf "replicate (length suf) None"
            "map Some (relocated T pre)" "[]" "map Some pre @ [Some x]" rest]
          first_throw_drop[OF reloc', of p] lpre lsuf
    by (simp add: suf_def)
  have "destroy_n ?s2 0 (m_size ?v) \<noteq> None"
    using destroy_n_live[of "[]" "relocated T pre @ relocated T suf" "[]"] lpre lsuf p
    by simp
  then obtain old where d: "destroy_n ?s2 0 (m_size ?v) = Some old" by blast
  have res: "\<lparr>m_data = ?nd\<lparr>cells := ?d2\<rparr>, m_size = m_size ?v + 1\<rparr> =
             vec (Some q) (grown (length xs)) (take p zs @ x # drop p zs)"
    using p lz by (simp add: vec_def rest_def nc_def pre_def suf_def)
  have ptr: "ptr_add (Vector_begin (vec (Some q) (grown (length xs)) (take p zs @ x # drop p zs))) p
             = Ptr (Some q) p"
    by (simp add: Vector_begin_def GetAddress_def)
  have "Emplace_realloc T A p args (vec b cap xs) =
           Returned (Ptr (Some q) p)
             (vec (Some q) (grown (length xs)) (take p zs @ x # drop p zs))"
    unfolding Emplace_realloc_def
    by (simp only: r0 ctor pn r1 f r2 d res ptr fst_conv snd_conv construction.case
          sum.case option.case result.case prod.case if_True if_False Let_def)
  then show ?thesis by (simp only: zs_def)
qed

lemma Emplace_vec:
  assumes le: "length xs \<le> cap" and p: "p \<le> length xs"
    and ctor: "construct T args (cells (m_data (vec b cap xs))) = Built x c"
    and nt: "nothrow T (x # after_construct T args xs)"
    and alloc: "length xs = cap \<longrightarrow>
                  allocates T A (grown (length xs)) \<and> A (grown (length xs) * sizeof T) = Some q"
  shows "Emplace T A (Ptr b p) args (vec b cap xs) =
           Returned (Ptr (if length xs < cap then b else Some q) p)
             (vec (if length xs < cap then b else Some q)
                  (if length xs < cap then cap else grown (length xs))
                  (take p (after_construct T args xs) @ x # drop p (after_construct T args xs)))"
proof (cases "p = length xs")
  case True
  let ?zs = "after_construct T args xs"
  have ce: "Ptr b p = cend (vec b cap xs)"
    by (simp add: cend_def GetAddress_def True)
  have reloc: "first_throw (relocate_ctor T) ?zs = None"
    using nt by (simp add: nothrow_first_throw)
  show ?thesis
  proof (cases "length xs < cap")
    case lt: True
    show ?thesis
      unfolding Emplace_def
      using lt True
      by (simp add: ce[symmetric] EmplaceBack_in_place[OF lt ctor] Vector_end_def GetAddress_def)
  next
    case ge: False
    with le alloc have a: "allocates T A (grown (length xs))"
      "A (grown (length xs) * sizeof T) = Some q" by simp_all
    have eb: "EmplaceBack T A args (vec b cap xs) =
                Returned (Ptr (Some q) (length xs)) (vec (Some q) (grown (length xs)) (?zs @ [x]))"
      using ge a ctor reloc by (rule EmplaceBack_realloc)
    show ?thesis
      unfolding Emplace_def
      using ge True
      by (simp add: ce[symmetric] eb Vector_end_def GetAddress_def)
  qed
next
  case False
  let ?zs = "after_construct T args xs"
  from False p have lt: "p < length xs" by simp
  have ne: "Ptr b p \<noteq> cend (vec b cap xs)"
    using False by (simp add: cend_def GetAddress_def)
  have dist: "distance (cbegin (vec b cap xs)) (Ptr b p) = Some p"
    by (simp add: cbegin_def GetAddress_def)
  have "length ?zs = length xs" by simp
  with lt have nonempty: "?zs \<noteq> []" by (metis less_nat_zero_code list.size(3))
  show ?thesis
  proof (cases "length xs < cap")
    case c: True
    have mc: "move_ctor T (last ?zs) = None"
      using nt nonempty by (auto intro: nothrow_mem)
    have "nothrow T (drop p (butlast ?zs))"
      using nt by (auto simp: nothrow_def list_all_iff dest!: in_set_dropD in_set_butlastD)
    then have ma: "first_throw (move_assign T) (drop p (butlast ?zs)) = None"
      by (rule nothrow_first_throw)
    have mx: "move_assign T x = None" using nt by simp
    show ?thesis
      unfolding Emplace_def
      using c ne
      by (simp add: dist Emplace_in_place_ok[OF lt c ctor mc ma mx])
  next
    case ge: False
    with le alloc have a: "allocates T A (grown (length xs))"
      "A (grown (length xs) * sizeof T) = Some q" by simp_all
    have reloc: "first_throw (relocate_ctor T) ?zs = None"
      using nt by (simp add: nothrow_first_throw)
    have er: "Emplace_realloc T A p args (vec b cap xs) =
                Returned (Ptr (Some q) p)
                  (vec (Some q) (grown (length xs)) (take p ?zs @ x # drop p ?zs))"
      using p ge a ctor reloc by (rule Emplace_realloc_ok)
    show ?thesis
      unfolding Emplace_def
      using ge ne
      by (simp add: dist er)
  qed
qed

section \<open>Copy construction and copy assignment\<close>

lemma Vector_copy_ok:
  assumes le: "length ys \<le> cap"
    and cc: "first_throw (copy_ctor T) ys = None"
    and alloc: "allocates T A (length ys)" and q: "A (length ys * sizeof T) = Some q"
    and ne: "ys \<noteq> []"
  shows "Vector_copy T A (vec b cap ys) = Returned (vec (Some q) (length ys) ys) ()"
proof -
  have a: "RawMemory_sized T A (length ys) =
             Inr \<lparr>m_buffer = Some q, m_capacity = length ys, cells = replicate (length ys) None\<rparr>"
    using alloc q ne by (simp add: RawMemory_sized_ok)
  have u: "uninitialized_copy_n T (cells (m_data (vec b cap ys))) 0 (length ys)
             (replicate (length ys) None) 0 = Returned () (map Some ys)"
    using uninitialized_copy_n_Returned[OF cc, where d = "replicate (length ys) None" and a = "[]"
            and b = "replicate (cap - length ys) None" and c = "[]" and e = "[]"]
    by (simp add: cells_vec)
  show ?thesis
    unfolding Vector_copy_def by (simp add: a u vec_def[of "Some q"])
qed

lemma Vector_copy_Threw:
  assumes le: "length ys \<le> cap"
    and cc: "first_throw (copy_ctor T) ys = Some e"
    and alloc: "allocates T A (length ys)" and q: "A (length ys * sizeof T) = Some q"
  shows "Vector_copy T A (vec b cap ys) = Threw e ()"
proof -
  from cc have ne: "ys \<noteq> []" by auto
  have a: "RawMemory_sized T A (length ys) =
             Inr \<lparr>m_buffer = Some q, m_capacity = length ys, cells = replicate (length ys) None\<rparr>"
    using alloc q ne by (simp add: RawMemory_sized_ok)
  from uninitialized_copy_n_Threw[OF cc, where d = "replicate (length ys) None" and a = "[]"
            and b = "replicate (cap - length ys) None" and c = "[]" and e = "[]"]
  obtain d' where u: "uninitialized_copy_n T (cells (m_data (vec b cap ys))) 0 (length ys)
             (replicate (length ys) None) 0 = Threw e d'"
    by (auto simp: cells_vec)
  show ?thesis
    unfolding Vector_copy_def by (simp add: a u)
qed

lemma Vector_dtor_vec: "Vector_dtor (vec b cap xs) \<noteq> None"
  using destroy_n_live[of "[]" xs "replicate (cap - length xs) None"]
  by (simp add: Vector_dtor_def cells_vec)

lemma Swap_vec: "Swap v w = (w, v)"
  by (simp add: Swap_def RawMemory_Swap_def Let_def RawMemory_eta Vector_eta)

lemma assign_copy_swap:
  assumes ne: "this \<noteq> rhs" and l: "st this = vec b cap xs" and r: "st rhs = vec b2 cap2 ys"
    and le2: "length ys \<le> cap2" and small: "cap < length ys"
    and cc: "first_throw (copy_ctor T) ys = None"
    and alloc: "allocates T A (length ys)" and q: "A (length ys * sizeof T) = Some q"
  shows "assign_copy T A this rhs st = Returned this (st(this := vec (Some q) (length ys) ys))"
proof -
  from small have ne': "ys \<noteq> []" by auto
  have c: "Vector_copy T A (vec b2 cap2 ys) = Returned (vec (Some q) (length ys) ys) ()"
    using le2 cc alloc q ne' by (rule Vector_copy_ok)
  obtain old where d: "Vector_dtor (vec b cap xs) = Some old"
    using Vector_dtor_vec[of b cap xs] by blast
  show ?thesis
    unfolding assign_copy_def using ne small
    by (simp add: l r c Swap_vec d)
qed

lemma assign_copy_shrink:
  assumes ne: "this \<noteq> rhs" and l: "st this = vec b cap xs" and r: "st rhs = vec b2 cap2 ys"
    and le: "length xs \<le> cap" and le2: "length ys \<le> cap2"
    and big: "length ys < length xs"
    and ca: "first_throw (copy_assign T) ys = None"
  shows "assign_copy T A this rhs st = Returned this (st(this := vec b cap ys))"
proof -
  let ?n = "length ys"
  let ?tail = "replicate (cap - length xs) (None::'a option)"
  have cx: "cells (m_data (vec b cap xs)) =
             map Some (take ?n xs) @ map Some (drop ?n xs) @ ?tail"
    by (simp add: cells_vec flip: map_append)
  have lt: "length (take ?n xs) = length ys" using big by simp
  have cp: "copy_n T (cells (m_data (vec b2 cap2 ys))) 0 ?n (cells (m_data (vec b cap xs))) 0 =
            Returned () (map Some ys @ map Some (drop ?n xs) @ ?tail)"
    unfolding cx
    using copy_n_Returned[OF ca lt, where a = "[]" and b = "replicate (cap2 - length ys) None"
            and c = "[]" and e = "map Some (drop ?n xs) @ ?tail"]
    by (simp add: cells_vec)
  have j: "replicate (length xs - ?n) None @ ?tail = replicate (cap - ?n) (None::'a option)"
    using big le by (simp flip: replicate_add)
  have d: "destroy_n (map Some ys @ map Some (drop ?n xs) @ ?tail) ?n (length xs - ?n) =
           Some (map Some ys @ replicate (cap - ?n) None)"
    using destroy_n_live[of "map Some ys" "drop ?n xs" ?tail] by (simp add: j)
  have res: "\<lparr>m_data = (m_data (vec b cap xs))
               \<lparr>cells := map Some ys @ replicate (cap - ?n) None\<rparr>, m_size = ?n\<rparr> = vec b cap ys"
    by (simp add: vec_def)
  show ?thesis
    unfolding assign_copy_def using ne big le
    by (simp add: l r cp d res)
qed

lemma assign_copy_extend:
  assumes ne: "this \<noteq> rhs" and l: "st this = vec b cap xs" and r: "st rhs = vec b2 cap2 ys"
    and le2: "length ys \<le> cap2"
    and fits: "length ys \<le> cap" and more: "length xs \<le> length ys"
    and ca: "first_throw (copy_assign T) ys = None"
    and cc: "first_throw (copy_ctor T) ys = None"
  shows "assign_copy T A this rhs st = Returned this (st(this := vec b cap ys))"
proof -
  let ?n = "length xs"
  let ?pre = "take ?n ys" and ?suf = "drop ?n ys"
  let ?tail2 = "replicate (cap2 - length ys) (None::'a option)"
  let ?gap = "replicate (length ys - ?n) (None::'a option)"
  let ?rest = "replicate (cap - length ys) (None::'a option)"
  have cy: "cells (m_data (vec b2 cap2 ys)) = map Some ?pre @ map Some ?suf @ ?tail2"
    by (simp add: cells_vec flip: map_append)
  have lp: "length ?pre = ?n" using more by simp
  have split: "replicate (cap - ?n) (None::'a option) = ?gap @ ?rest"
    using fits more by (simp flip: replicate_add)
  have cx: "cells (m_data (vec b cap xs)) = map Some xs @ ?gap @ ?rest"
    by (simp add: cells_vec split)
  have ca': "first_throw (copy_assign T) ?pre = None" using ca by (rule first_throw_take)
  have cc': "first_throw (copy_ctor T) ?suf = None" using cc by (rule first_throw_drop)
  have cp: "copy_n T (cells (m_data (vec b2 cap2 ys))) 0 ?n (cells (m_data (vec b cap xs))) 0 =
            Returned () (map Some ?pre @ ?gap @ ?rest)"
    unfolding cy cx
    using copy_n_Returned[OF ca', where ys = xs and a = "[]" and b = "map Some ?suf @ ?tail2"
            and c = "[]" and e = "?gap @ ?rest"] lp
    by simp
  have lg: "length ?gap = length ?suf" by simp
  have "uninitialized_copy_n T (map Some ?pre @ map Some ?suf @ ?tail2) (length (map Some ?pre))
          (length ?suf) (map Some ?pre @ ?gap @ ?rest) (length (map Some ?pre)) =
        Returned () (map Some ?pre @ map Some ?suf @ ?rest)"
    using cc' lg by (rule uninitialized_copy_n_Returned)
  then have uc: "uninitialized_copy_n T (cells (m_data (vec b2 cap2 ys))) ?n (length ys - ?n)
          (map Some ?pre @ ?gap @ ?rest) ?n = Returned () (map Some ys @ ?rest)"
    unfolding cy using lp by (simp flip: map_append)
  have res: "\<lparr>m_data = (m_data (vec b cap xs))\<lparr>cells := map Some ys @ ?rest\<rparr>,
             m_size = length ys\<rparr> = vec b cap ys"
    by (simp add: vec_def)
  show ?thesis
    unfolding assign_copy_def using ne fits more
    by (simp add: l r cp uc res)
qed

section \<open>The two element types\<close>

lemma Throwing_sel:
  "copy_ctor Throwing x = (if x = 13 then Some (elem_exn 1) else None)"
  "move_ctor Throwing x = None"
  "copy_assign Throwing x = (if x = 13 then Some (elem_exn 1) else None)"
  "move_assign Throwing x = None"
  "moved_from Throwing x = 0"
  "value_init Throwing = Inr 0"
  "is_nothrow_move_constructible Throwing = False"
  "is_copy_constructible Throwing = True"
  "sizeof Throwing = 4"
  by (simp_all add: Throwing_def)

lemma Plain_sel:
  "copy_ctor Plain x = None"
  "move_ctor Plain x = None"
  "copy_assign Plain x = None"
  "move_assign Plain x = None"
  "moved_from Plain x = 0"
  "value_init Plain = Inr 0"
  "is_nothrow_move_constructible Plain = True"
  "is_copy_constructible Plain = True"
  "sizeof Plain = 8"
  by (simp_all add: Plain_def)

section \<open>Calls of Resize that return\<close>








section \<open>Returned iterators when nothing throws\<close>

text \<open>
  On a vector that satisfies the invariant, at a valid position \<open>p\<close>, when nothing throws
  and the allocation (if one is needed) succeeds: \<^verbatim>\<open>Emplace\<close> returns \<^verbatim>\<open>begin() + p\<close> of the
  vector as it is after the call (in the new buffer when it reallocated), and the slot it
  points to holds the new element; \<^verbatim>\<open>EmplaceBack\<close> returns a reference to slot \<open>size\<close> of the
  vector after the call, which holds the new element; \<^verbatim>\<open>Erase\<close> at \<open>p < size\<close> returns
  \<^verbatim>\<open>begin() + p\<close>, where the element that followed the erased one now is, or \<^verbatim>\<open>end()\<close> when
  the last element was erased.
\<close>

lemma iterators_when_nothing_throws:
  assumes inv: "Vector_inv v" and p: "p \<le> m_size v"
    and ctor: "construct T args (cells (m_data v)) = Built x c"
    and nt: "nothrow T (x # after_construct T args (elems v))"
    and alloc: "m_size v = Capacity v \<longrightarrow> allocates T A (grown (m_size v))"
  shows "(\<exists>v'. Emplace T A (ptr_add (Vector_begin v) p) args v =
                  Returned (ptr_add (Vector_begin v') p) v' \<and>
               Vector_index v' p = Some x \<and>
               (m_size v = Capacity v \<longrightarrow>
                  m_buffer (m_data v') = A (grown (m_size v) * sizeof T))) \<and>
         (\<exists>v'. EmplaceBack T A args v = Returned (ptr_add (Vector_begin v') (m_size v)) v' \<and>
               Vector_index v' (m_size v) = Some x \<and> m_size v' = m_size v + 1) \<and>
         (p < m_size v \<and> first_throw (move_assign T) (drop (Suc p) (elems v)) = None \<longrightarrow>
            (\<exists>v'. Erase T (ptr_add (Vector_begin v) p) v =
                    Returned (ptr_add (Vector_begin v') p) v' \<and>
                  (Suc p < m_size v \<longrightarrow> Vector_index v' p = Some (elems v ! Suc p)) \<and>
                  (Suc p = m_size v \<longrightarrow> ptr_add (Vector_begin v') p = Vector_end v')))"
proof -
  from inv obtain b cap xs where v: "v = vec b cap xs" and le: "length xs \<le> cap"
    and b: "(b = None) = (cap = 0)"
    by (rule Vector_inv_cases)
  let ?zs = "after_construct T args xs"
  from p have p': "p \<le> length xs" by (simp add: v)
  from nt have nt': "nothrow T (x # ?zs)" by (simp add: v)
  from ctor have ctor': "construct T args (cells (m_data (vec b cap xs))) = Built x c"
    by (simp only: v)
  obtain q where q: "length xs = cap \<longrightarrow>
      allocates T A (grown (length xs)) \<and> A (grown (length xs) * sizeof T) = Some q"
    using alloc by (cases "A (grown (length xs) * sizeof T)") (auto simp: v allocates_def)
  let ?b' = "if length xs < cap then b else Some q"
  let ?cap' = "if length xs < cap then cap else grown (length xs)"
  let ?ys = "take p ?zs @ x # drop p ?zs"
  have cap': "Suc (length xs) \<le> ?cap'"
    by (simp add: less_grown Suc_leI)
  have "Emplace T A (Ptr b p) args (vec b cap xs) = Returned (Ptr ?b' p) (vec ?b' ?cap' ?ys)"
    using le p' ctor' nt' q by (rule Emplace_vec)
  moreover have "Vector_index (vec ?b' ?cap' ?ys) p = Some x"
    using p' cap' by (subst Vector_index_vec) (simp_all add: nth_append)
  ultimately have 1:
    "\<exists>v'. Emplace T A (ptr_add (Vector_begin v) p) args v =
            Returned (ptr_add (Vector_begin v') p) v' \<and>
          Vector_index v' p = Some x \<and>
          (m_size v = Capacity v \<longrightarrow> m_buffer (m_data v') = A (grown (m_size v) * sizeof T))"
    using q by (intro exI[of _ "vec ?b' ?cap' ?ys"]) (auto simp: v)
  have reloc: "first_throw (relocate_ctor T) ?zs = None"
    using nt' by (simp add: nothrow_first_throw)
  have "EmplaceBack T A args (vec b cap xs) =
          Returned (Ptr ?b' (length xs)) (vec ?b' ?cap' (?zs @ [x]))"
    using le ctor' reloc q by (rule EmplaceBack_vec)
  moreover have "Vector_index (vec ?b' ?cap' (?zs @ [x])) (length xs) = Some x"
    using cap' by (subst Vector_index_vec) (simp_all add: nth_append)
  ultimately have 2:
    "\<exists>v'. EmplaceBack T A args v = Returned (ptr_add (Vector_begin v') (m_size v)) v' \<and>
          Vector_index v' (m_size v) = Some x \<and> m_size v' = m_size v + 1"
    by (intro exI[of _ "vec ?b' ?cap' (?zs @ [x])"]) (simp add: v)
  have 3: "\<exists>v'. Erase T (ptr_add (Vector_begin v) p) v =
                  Returned (ptr_add (Vector_begin v') p) v' \<and>
                (Suc p < m_size v \<longrightarrow> Vector_index v' p = Some (elems v ! Suc p)) \<and>
                (Suc p = m_size v \<longrightarrow> ptr_add (Vector_begin v') p = Vector_end v')"
    if H: "p < m_size v \<and> first_throw (move_assign T) (drop (Suc p) (elems v)) = None"
  proof -
    from H have lt': "p < length xs"
      and mv: "first_throw (move_assign T) (drop (Suc p) xs) = None" by (simp_all add: v)
    let ?ws = "take p xs @ drop (Suc p) xs"
    have E: "Erase T (Ptr b p) (vec b cap xs) = Returned (Ptr b p) (vec b cap ?ws)"
      using lt' le mv by (rule Erase_ok)
    have I: "Vector_index (vec b cap ?ws) p = Some (xs ! Suc p)" if "Suc p < length xs"
      using that le by (subst Vector_index_vec) (simp_all add: nth_append)
    show ?thesis
      using E I lt' by (intro exI[of _ "vec b cap ?ws"]) (auto simp: v)
  qed
  from 1 2 3 show ?thesis by blast
qed

section \<open>A request whose byte count wraps\<close>

text \<open>
  For an element type of \<open>8\<close> bytes, \<^verbatim>\<open>Resize(2^61 + 1)\<close> on the empty vector asks
  \<^verbatim>\<open>operator new\<close> for \<open>(2 ^ 61 + 1) * 8 mod 2 ^ 64 = 8\<close> bytes. \<^verbatim>\<open>Reserve\<close> returns with a
  capacity of \<open>2 ^ 61 + 1\<close> and a block of one slot, and the value-initialisation of the new
  elements runs past that slot: the call has undefined behaviour.
\<close>

lemma value_construct_overrun:
  "value_init T = Inr z \<Longrightarrow> 0 < m \<Longrightarrow> length dst < first + m \<Longrightarrow>
   uninitialized_value_construct_n T dst first m = Undefined"
proof (induction m arbitrary: dst first)
  case 0
  then show ?case by simp
next
  case (Suc m)
  show ?case
  proof (cases "first < length dst")
    case False
    then show ?thesis by simp
  next
    case True
    with Suc.prems(3) have m: "0 < m" by simp
    have "uninitialized_value_construct_n T (dst[first := Some z]) (Suc first) m = Undefined"
      using Suc.prems(1) m by (rule Suc.IH) (use Suc.prems(3) in simp)
    with True Suc.prems(1) show ?thesis by simp
  qed
qed

lemma Resize_wrapped_request:
  "RawMemory_sized Plain new_block (2 ^ 61 + 1) =
     Inr \<lparr>m_buffer = Some 1008, m_capacity = 2 ^ 61 + 1, cells = [None]\<rparr> \<and>
   Reserve Plain new_block (2 ^ 61 + 1) Vector_default =
     Returned () \<lparr>m_data = \<lparr>m_buffer = Some 1008, m_capacity = 2 ^ 61 + 1, cells = [None]\<rparr>,
                  m_size = 0\<rparr> \<and>
   Resize Plain new_block (2 ^ 61 + 1) Vector_default = Undefined"
proof -
  have a: "RawMemory_sized Plain new_block (2 ^ 61 + 1) =
     Inr \<lparr>m_buffer = Some 1008, m_capacity = 2 ^ 61 + 1, cells = [None]\<rparr>"
    by (simp add: RawMemory_sized_def Allocate_def size_t_mul_def new_block_def Plain_sel)
  have R: "Reserve Plain new_block (2 ^ 61 + 1) Vector_default =
     Returned () \<lparr>m_data = \<lparr>m_buffer = Some 1008, m_capacity = 2 ^ 61 + 1, cells = [None]\<rparr>,
                  m_size = 0\<rparr>"
    unfolding Reserve_def a
    by (simp add: Vector_default_def RawMemory_default_def relocate_n_def)
  have U: "uninitialized_value_construct_n Plain [None] 0 (2 ^ 61 + 1) = Undefined"
    by (rule value_construct_overrun[where z = 0]) (simp_all add: Plain_sel)
  have "Resize Plain new_block (2 ^ 61 + 1) Vector_default = Undefined"
    unfolding Resize_def R
    using U by (simp add: Vector_default_def RawMemory_default_def)
  with a R show ?thesis by blast
qed

section \<open>An append that fails\<close>

text \<open>
  For an element type that is copy constructible and whose move constructor is not
  \<^verbatim>\<open>noexcept\<close> (the code duplicates), on a full vector that satisfies the invariant: when the
  constructor of the new element throws, or the copy constructor of an element throws while
  the old elements are copied into the new buffer, \<^verbatim>\<open>EmplaceBack\<close> and both \<^verbatim>\<open>PushBack\<close>
  throw that exception and leave a vector with the same size, capacity and buffer. Its
  elements are those the construction of the new element left: when the argument is not an
  rvalue reference to an element of the vector itself, or when it was the constructor of the
  new element that threw, the vector is exactly as it was before the call; when the argument
  is an rvalue reference to the element in slot \<open>i\<close> of the vector and the new element was
  constructed from it, that element is left moved-from and every other element is as it was.
\<close>

lemma append_failure_state:
  assumes inv: "Vector_inv v"
    and dup: "\<not> is_nothrow_move_constructible T" "is_copy_constructible T"
    and full: "m_size v = Capacity v"
    and alloc: "allocates T A (grown (m_size v))"
    and fail: "append_failure T args (elems v) = Some e"
  shows "\<exists>v'. EmplaceBack T A args v = Threw e v' \<and>
           PushBack_fwd T A args v = Threw e v' \<and>
           (\<forall>r. args = CopyFrom r \<longrightarrow> PushBack T A r v = Threw e v') \<and>
           Vector_inv v' \<and> m_size v' = m_size v \<and> Capacity v' = Capacity v \<and>
           m_buffer (m_data v') = m_buffer (m_data v) \<and>
           ((\<forall>i. args \<noteq> MoveFrom (Element i)) \<longrightarrow> v' = v) \<and>
           ((\<exists>e'. construct T args (cells (m_data v)) = Failed e') \<longrightarrow> v' = v) \<and>
           (\<forall>i x c. args = MoveFrom (Element i) \<and>
                    construct T args (cells (m_data v)) = Built x c \<longrightarrow>
                    i < m_size v \<and> elems v' = (elems v)[i := moved_from T (elems v ! i)])"
proof -
  from inv obtain b cap xs where v: "v = vec b cap xs" and le: "length xs \<le> cap"
    and bb: "(b = None) = (cap = 0)"
    by (rule Vector_inv_cases)
  from full have cap: "cap = length xs" by (simp add: v)
  from alloc have al: "allocates T A (grown (length xs))" by (simp add: v)
  then obtain q where q: "A (grown (length xs) * sizeof T) = Some q" by (rule allocatesE)
  let ?nc = "grown (length xs)"
  let ?zs = "after_construct T args xs"
  have nc: "length xs < ?nc" by (rule less_grown)
  have a: "RawMemory_sized T A ?nc =
             Inr \<lparr>m_buffer = Some q, m_capacity = ?nc, cells = replicate ?nc None\<rparr>"
    using al q nc by (simp add: RawMemory_sized_ok)
  have cv: "cells (m_data (vec b (length xs) xs)) = map Some xs"
    by (simp add: cells_vec)
  define v' where "v' = (case construct T args (map Some xs) of
                           Built x c \<Rightarrow> vec b cap ?zs | Failed e' \<Rightarrow> v | Dangling \<Rightarrow> v)"
  have E: "EmplaceBack T A args v = Threw e v'"
  proof (cases "construct T args (map Some xs)")
    case (Failed e')
    with fail have "e' = e" by (simp add: append_failure_def v)
    with Failed show ?thesis
      unfolding EmplaceBack_def v'_def using nc
      by (simp add: v cap a RawMemory_plus_def Let_def cv)
  next
    case Dangling
    with fail show ?thesis by (simp add: append_failure_def v)
  next
    case (Built x c)
    with fail have ft: "first_throw (copy_ctor T) ?zs = Some e"
      by (simp add: append_failure_def v)
    have c: "c = map Some ?zs"
      using construct_live[of T args xs 0 x c] Built by simp
    have pn: "placement_new (replicate ?nc None) (length xs) x =
                Some (replicate (length xs) None @ Some x # replicate (?nc - Suc (length xs)) None)"
      using nc by (simp add: placement_new_def replicate_upd_split)
    from uninitialized_copy_n_Threw[OF ft, where d = "replicate (length xs) None" and a = "[]"
           and b = "[]" and c = "[]" and e = "Some x # replicate (?nc - Suc (length xs)) None"]
    obtain d' where u: "uninitialized_copy_n T (map Some ?zs) 0 (length xs)
        (replicate (length xs) None @ Some x # replicate (?nc - Suc (length xs)) None) 0 =
        Threw e d'"
      by auto
    have r: "relocate_n T (map Some ?zs) 0 (length xs)
        (replicate (length xs) None @ Some x # replicate (?nc - Suc (length xs)) None) 0 =
        Threw e (map Some ?zs, d')"
      using dup by (simp add: relocate_n_def u)
    have same: "\<lparr>m_data = (m_data (vec b (length xs) xs))\<lparr>cells := map Some ?zs\<rparr>,
                 m_size = length xs\<rparr> = vec b (length xs) ?zs"
      by (simp add: vec_def)
    show ?thesis
      unfolding EmplaceBack_def v'_def using nc
      by (simp add: v cap a RawMemory_plus_def Let_def cv Built[unfolded c] pn r same)
  qed
  have 1: "Vector_inv v' \<and> m_size v' = m_size v \<and> Capacity v' = Capacity v \<and>
           m_buffer (m_data v') = m_buffer (m_data v)"
    using le bb by (simp add: v'_def v split: construction.splits)
  have 2: "v' = v" if "\<forall>i. args \<noteq> MoveFrom (Element i)"
    using after_construct_not_moved[OF that, of T xs]
    by (simp add: v'_def v split: construction.splits)
  have 3: "v' = v" if "\<exists>e'. construct T args (cells (m_data v)) = Failed e'"
    using that by (auto simp: v'_def v cap cv split: construction.splits)
  have 4: "i < m_size v \<and> elems v' = (elems v)[i := moved_from T (elems v ! i)]"
    if "args = MoveFrom (Element i) \<and> construct T args (cells (m_data v)) = Built x c"
    for i x c
  proof -
    from that have m: "args = MoveFrom (Element i)"
      and b0: "construct T args (cells (m_data v)) = Built x c"
      by blast+
    from b0 have b: "construct T (MoveFrom (Element i)) (cells (m_data (vec b cap xs))) = Built x c"
      unfolding m v .
    from construct_moved_element[OF b] have "i < length xs" by simp
    moreover from b have "construct T args (map Some xs) = Built x c"
      by (simp add: m cap cv)
    ultimately show ?thesis by (simp add: v'_def v m del: construct.simps)
  qed
  from E 1 2 3 4 show ?thesis
    by (intro exI[of _ v']) (auto simp add: PushBack_fwd_eq PushBack_eq)
qed

section \<open>The claims\<close>

text \<open>
  Claim C1 fails on the code. The copy constructor of the element type throws on \<open>13\<close> and
  its move constructor is not \<^verbatim>\<open>noexcept\<close>, so the code duplicates. On the full vector
  \<open>[13, 2]\<close>, \<^verbatim>\<open>Insert(begin() + 1, 5)\<close> takes the reallocating branch of \<^verbatim>\<open>Emplace\<close>: the
  transfer of the prefix throws, the handler destroys the new element and does not rethrow,
  and the call returns an iterator as if it had completed. On the full vector \<open>[2, 13]\<close>,
  \<^verbatim>\<open>Insert(begin(), 5)\<close> does the same when the transfer of the suffix throws.
\<close>

theorem Insert_swallows_copy_exception:
  "relocate_n Throwing (cells (m_data (vec (Some 1002) 2 [13, 2]))) 0 1
     [None, Some 5, None, None] 0 =
     Threw (elem_exn 1) ([Some 13, Some 2], [None, Some 5, None, None]) \<and>
   Insert Throwing new_block (ptr_add (Vector_begin (vec (Some 1002) 2 [13, 2::nat])) 1)
     (Outside 5) (vec (Some 1002) 2 [13, 2]) =
     Returned (Ptr (Some 1016) 1)
       \<lparr>m_data = \<lparr>m_buffer = Some 1016, m_capacity = 4, cells = [None, None, Some 2, None]\<rparr>,
        m_size = 3\<rparr> \<and>
   relocate_n Throwing (cells (m_data (vec (Some 1002) 2 [2, 13]))) 0 2
     [Some 5, None, None, None] 1 =
     Threw (elem_exn 1) ([Some 2, Some 13], [Some 5, None, None, None]) \<and>
   Insert Throwing new_block (ptr_add (Vector_begin (vec (Some 1002) 2 [2, 13::nat])) 0)
     (Outside 5) (vec (Some 1002) 2 [2, 13]) =
     Returned (Ptr (Some 1016) 0)
       \<lparr>m_data = \<lparr>m_buffer = Some 1016, m_capacity = 4, cells = [None, None, None, None]\<rparr>,
        m_size = 3\<rparr>"
proof -
  have a: "RawMemory_sized Throwing new_block 4 =
             Inr \<lparr>m_buffer = Some 1016, m_capacity = 4, cells = replicate 4 None\<rparr>"
    by (simp add: RawMemory_sized_def Allocate_def size_t_mul_def new_block_def Throwing_def)
  have r: "replicate 4 (None::nat option) = [None, None, None, None]"
    by (simp add: numeral_eq_Suc)
  have g: "grown (Suc (Suc 0)) = 4" by (simp add: grown_def)
  show ?thesis
    by (simp add: Insert_def Emplace_def Emplace_realloc_def relocate_n_def g a r Throwing_sel 
          vec_def cend_def cbegin_def GetAddress_def Vector_begin_def
          Capacity_def placement_new_def destroy_at_def destroy_def Let_def numeral_2_eq_2
          numeral_3_eq_3)
qed


text \<open>
  Claim C3 fails on the code, by the same handler. From the default-constructed vector,
  \<^verbatim>\<open>Reserve(2)\<close>, \<^verbatim>\<open>EmplaceBack(13)\<close>, \<^verbatim>\<open>EmplaceBack(2)\<close> and
  \<^verbatim>\<open>Insert(begin() + 1, 5)\<close>, each within its precondition, lead to a vector of size \<open>3\<close>
  whose slots \<open>0\<close> and \<open>1\<close> hold no object.
\<close>

theorem invariant_broken_by_swallowed_exception:
  "run Throwing new_block
     [Call_Reserve 2, Call_EmplaceBack (Args (Inr 13)), Call_EmplaceBack (Args (Inr 2)),
      Call_Insert 1 (Outside 5)] Vector_default =
     Some \<lparr>m_data = \<lparr>m_buffer = Some 1016, m_capacity = 4,
                        cells = [None, None, Some 2, None]\<rparr>,
           m_size = 3\<rparr> \<and>
   \<not> Vector_inv \<lparr>m_data = \<lparr>m_buffer = Some 1016, m_capacity = 4,
                              cells = [None, None, Some (2::nat), None]\<rparr>,
                 m_size = 3\<rparr>"
proof -
  have "RawMemory_sized Throwing new_block 2 =
             Inr \<lparr>m_buffer = Some 1008, m_capacity = 2, cells = replicate 2 None\<rparr>"
    by (simp add: RawMemory_sized_def Allocate_def size_t_mul_def new_block_def Throwing_def)
  then have a2: "RawMemory_sized Throwing new_block (Suc (Suc 0)) =
             Inr \<lparr>m_buffer = Some 1008, m_capacity = Suc (Suc 0), cells = [None, None]\<rparr>"
    by (simp add: numeral_2_eq_2)
  have a4: "RawMemory_sized Throwing new_block 4 =
             Inr \<lparr>m_buffer = Some 1016, m_capacity = 4, cells = replicate 4 None\<rparr>"
    by (simp add: RawMemory_sized_def Allocate_def size_t_mul_def new_block_def Throwing_def)
  have r: "replicate 4 (None::nat option) = [None, None, None, None]"
    by (simp add: numeral_eq_Suc)
  have g: "grown (Suc (Suc 0)) = 4" by (simp add: grown_def)
  show ?thesis
    by (simp add: Insert_def Emplace_def Emplace_realloc_def relocate_n_def g a2 a4 r
          Throwing_sel cend_def cbegin_def GetAddress_def Vector_begin_def Capacity_def
          placement_new_def destroy_at_def destroy_def Let_def numeral_2_eq_2 numeral_3_eq_3
          Vector_default_def RawMemory_default_def Reserve_def EmplaceBack_def
          RawMemory_plus_def Vector_inv_def)
qed

text \<open>
  Claim C4. On a vector that satisfies the invariant, an append that returns
  (\<^verbatim>\<open>EmplaceBack\<close>, and both \<^verbatim>\<open>PushBack\<close>, which leave the same vector) keeps buffer and capacity
  when size is below capacity, and when size equals capacity moves to a new block whose
  capacity is \<open>1\<close> if the old capacity was \<open>0\<close> and twice the old capacity otherwise. Starting
  from the empty vector, after the appends of any list \<open>ys\<close> the capacity is the first term
  of the sequence \<open>growth\<close> \<open>= 0, 1, 2, 4, 8, ...\<close> that is at least \<open>length ys\<close>. The byte
  counts of the blocks asked for are supposed not to wrap.
\<close>

theorem append_growth:
  assumes inv: "Vector_inv v" and ctor: "construct T args (cells (m_data v)) = Built x c"
    and reloc: "first_throw (relocate_ctor T) (after_construct T args (elems v)) = None"
    and alloc: "\<forall>n. A n \<noteq> None"
    and sz: "0 < sizeof T"
    and fit: "m_size v = Capacity v \<longrightarrow> grown (m_size v) * sizeof T < 2 ^ 64"
    and fit_ys: "2 * length ys * sizeof T < 2 ^ 64"
    and ys: "\<forall>y\<in>set ys. copy_ctor T y = None \<and> relocate_ctor T y = None"
  shows "(\<exists>r v'. EmplaceBack T A args v = Returned r v' \<and>
            PushBack_fwd T A args v = Returned () v' \<and>
            (\<forall>y. args = CopyFrom y \<longrightarrow> PushBack T A y v = Returned () v') \<and>
            elems v' = after_construct T args (elems v) @ [x] \<and>
            (m_size v < Capacity v \<longrightarrow>
               Capacity v' = Capacity v \<and> m_buffer (m_data v') = m_buffer (m_data v)) \<and>
            (m_size v = Capacity v \<longrightarrow>
               Capacity v' = (if Capacity v = 0 then 1 else 2 * Capacity v) \<and>
               m_buffer (m_data v') = A (Capacity v' * sizeof T))) \<and>
         (\<exists>w k. run T A (map (\<lambda>y. Call_PushBack (Outside y)) ys) Vector_default = Some w \<and>
            elems w = ys \<and> Vector_inv w \<and> Capacity w = growth k \<and>
            length ys \<le> growth k \<and> (\<forall>j<k. growth j < length ys)) \<and>
         growth 0 = 0 \<and> (\<forall>k. growth (Suc k) = 2 ^ k)"
proof -
  from inv obtain b cap xs where v: "v = vec b cap xs" and le: "length xs \<le> cap"
    by (rule Vector_inv_cases)
  from reloc have reloc': "first_throw (relocate_ctor T) (after_construct T args xs) = None"
    by (simp add: v)
  from ctor have ctor': "construct T args (cells (m_data (vec b cap xs))) = Built x c"
    by (simp only: v)
  obtain q where q: "A (grown (length xs) * sizeof T) = Some q"
    using alloc by (metis not_Some_eq)
  have al: "length xs = cap \<longrightarrow>
              allocates T A (grown (length xs)) \<and> A (grown (length xs) * sizeof T) = Some q"
    using fit sz q by (auto simp: v allocates_def)
  let ?b' = "if length xs < cap then b else Some q"
  let ?c' = "if length xs < cap then cap else grown (length xs)"
  let ?zs = "after_construct T args xs"
  have E: "EmplaceBack T A args v = Returned (Ptr ?b' (length xs)) (vec ?b' ?c' (?zs @ [x]))"
    unfolding v using le ctor' reloc' al by (rule EmplaceBack_vec)
  have 1: "\<exists>r v'. EmplaceBack T A args v = Returned r v' \<and>
            PushBack_fwd T A args v = Returned () v' \<and>
            (\<forall>y. args = CopyFrom y \<longrightarrow> PushBack T A y v = Returned () v') \<and>
            elems v' = after_construct T args (elems v) @ [x] \<and>
            (m_size v < Capacity v \<longrightarrow>
               Capacity v' = Capacity v \<and> m_buffer (m_data v') = m_buffer (m_data v)) \<and>
            (m_size v = Capacity v \<longrightarrow>
               Capacity v' = (if Capacity v = 0 then 1 else 2 * Capacity v) \<and>
               m_buffer (m_data v') = A (Capacity v' * sizeof T))"
    using E q
    by (intro exI[of _ "Ptr ?b' (length xs)"] exI[of _ "vec ?b' ?c' (?zs @ [x])"])
       (auto simp: v PushBack_fwd_eq PushBack_eq grown_def)
  have "\<exists>b' k'. run T A (map (\<lambda>y. Call_PushBack (Outside y)) ys) (vec None (growth 0) []) =
                    Some (vec b' (growth k') ([] @ ys)) \<and>
                  length ([] @ ys) \<le> growth k' \<and> (\<forall>j<k'. growth j < length ([] @ ys)) \<and>
                  (b' = None) = (growth k' = 0)"
    using ys alloc sz fit_ys by (intro run_PushBack) auto
  then obtain b' k where R: "run T A (map (\<lambda>y. Call_PushBack (Outside y)) ys) Vector_default =
                               Some (vec b' (growth k) ys)"
    and k: "length ys \<le> growth k" "\<forall>j<k. growth j < length ys" "(b' = None) = (growth k = 0)"
    by (auto simp: Vector_default_vec)
  have 2: "\<exists>w k. run T A (map (\<lambda>y. Call_PushBack (Outside y)) ys) Vector_default = Some w \<and>
            elems w = ys \<and> Vector_inv w \<and> Capacity w = growth k \<and>
            length ys \<le> growth k \<and> (\<forall>j<k. growth j < length ys)"
    using R k by (intro exI[of _ "vec b' (growth k) ys"] exI[of _ k]) simp
  have 3: "growth 0 = 0" by simp
  have 4: "\<forall>k. growth (Suc k) = 2 ^ k" by (simp only: growth_Suc_pow) simp
  from 1 2 3 4 show ?thesis by blast
qed

theorem append_growth_witness:
  "Vector_inv (vec (Some 1016) 2 [1, 2::nat]) \<and>
   construct Plain (CopyFrom (Outside 3)) (cells (m_data (vec (Some 1016) 2 [1, 2]))) =
     Built 3 (cells (m_data (vec (Some 1016) 2 [1, 2]))) \<and>
   first_throw (relocate_ctor Plain)
     (after_construct Plain (CopyFrom (Outside 3)) (elems (vec (Some 1016) 2 [1, 2]))) = None \<and>
   (\<forall>n. new_block n \<noteq> None) \<and> 0 < sizeof Plain \<and>
   grown (m_size (vec (Some 1016) 2 [1, 2::nat])) * sizeof Plain < 2 ^ 64 \<and>
   2 * length [1, 2, 3, 4, 5::nat] * sizeof Plain < 2 ^ 64 \<and>
   new_block (4 * sizeof Plain) = Some 1032 \<and>
   (\<exists>r v'. EmplaceBack Plain new_block (CopyFrom (Outside 3)) (vec (Some 1016) 2 [1, 2]) =
              Returned r v' \<and>
      PushBack Plain new_block (Outside 3) (vec (Some 1016) 2 [1, 2]) = Returned () v' \<and>
      elems v' = [1, 2, 3] \<and> Capacity v' = 4 \<and> m_buffer (m_data v') = Some 1032) \<and>
   (\<exists>w k. run Plain new_block (map (\<lambda>y. Call_PushBack (Outside y)) [1, 2, 3, 4, 5])
             Vector_default = Some w \<and>
      elems w = [1, 2, 3, 4, 5] \<and> Capacity w = growth k \<and> 5 \<le> growth k \<and>
      (\<forall>j<k. growth j < 5))"
proof -
  let ?v = "vec (Some 1016) 2 [1, 2::nat]"
  have h1: "Vector_inv ?v" by simp
  have h2: "construct Plain (CopyFrom (Outside 3)) (cells (m_data ?v)) = Built 3 (cells (m_data ?v))"
    by (simp add: Plain_sel)
  have h3: "first_throw (relocate_ctor Plain)
              (after_construct Plain (CopyFrom (Outside 3)) (elems ?v)) = None"
    by (simp add: Plain_sel relocate_ctor_def)
  have h4: "\<forall>n. new_block n \<noteq> None" by (simp add: new_block_def)
  have h5: "0 < sizeof Plain" by (simp add: Plain_sel)
  have h6: "grown (m_size ?v) * sizeof Plain < 2 ^ 64" by (simp add: Plain_sel grown_def)
  have h7: "2 * length [1, 2, 3, 4, 5::nat] * sizeof Plain < 2 ^ 64" by (simp add: Plain_sel)
  have h8: "\<forall>y\<in>set [1, 2, 3, 4, 5::nat]. copy_ctor Plain y = None \<and> relocate_ctor Plain y = None"
    by (simp add: Plain_sel relocate_ctor_def)
  have nb: "new_block (4 * sizeof Plain) = Some 1032" by (simp add: new_block_def Plain_sel)
  from h6 have h6': "m_size ?v = Capacity ?v \<longrightarrow> grown (m_size ?v) * sizeof Plain < 2 ^ 64"
    by (rule impI)
  from append_growth[where v = ?v and T = Plain and args = "CopyFrom (Outside 3)" and x = 3
         and A = new_block and ys = "[1, 2, 3, 4, 5]", OF h1 h2 h3 h4 h5 h6' h7 h8]
  have c: "\<exists>r v'. EmplaceBack Plain new_block (CopyFrom (Outside 3)) ?v = Returned r v' \<and>
            PushBack Plain new_block (Outside 3) ?v = Returned () v' \<and>
            elems v' = after_construct Plain (CopyFrom (Outside 3)) (elems ?v) @ [3] \<and>
            Capacity v' = (if Capacity ?v = 0 then 1 else 2 * Capacity ?v) \<and>
            m_buffer (m_data v') = new_block (Capacity v' * sizeof Plain)"
    "\<exists>w k. run Plain new_block (map (\<lambda>y. Call_PushBack (Outside y)) [1, 2, 3, 4, 5])
             Vector_default = Some w \<and>
            elems w = [1, 2, 3, 4, 5] \<and> Capacity w = growth k \<and>
            length [1, 2, 3, 4, 5::nat] \<le> growth k \<and> (\<forall>j<k. growth j < length [1, 2, 3, 4, 5::nat])"
    by (auto simp del: growth.simps)
  from c(1) have c1: "\<exists>r v'. EmplaceBack Plain new_block (CopyFrom (Outside 3)) ?v = Returned r v' \<and>
      PushBack Plain new_block (Outside 3) ?v = Returned () v' \<and>
      elems v' = [1, 2, 3] \<and> Capacity v' = 4 \<and> m_buffer (m_data v') = Some 1032"
    using nb by auto
  have len: "length [1, 2, 3, 4, 5::nat] = 5" by simp
  from c(2) have c2: "\<exists>w k. run Plain new_block (map (\<lambda>y. Call_PushBack (Outside y)) [1, 2, 3, 4, 5])
             Vector_default = Some w \<and>
      elems w = [1, 2, 3, 4, 5] \<and> Capacity w = growth k \<and> 5 \<le> growth k \<and>
      (\<forall>j<k. growth j < 5)"
    unfolding len .
  from h1 h2 h3 h4 h5 h6 h7 nb c1 c2 show ?thesis by blast
qed

text \<open>
  Claim C5. The move constructor gives the new vector the source's buffer pointer, capacity,
  storage and size (the new vector is equal to what the source was) and leaves the source as a
  default-constructed vector: size \<open>0\<close>, capacity \<open>0\<close>, null pointer, no storage. Move
  assignment between two distinct objects exchanges them: the destination becomes what the
  source was and the source what the destination was, and no other object changes; on one
  object it does nothing. Both are plain functions of the model: they have no throwing and no
  undefined outcome.
\<close>

theorem move_transfers_ownership:
  "Vector_move other = (other, Vector_default) \<and>
   m_size (snd (Vector_move other)) = 0 \<and>
   Capacity (snd (Vector_move other)) = 0 \<and>
   m_buffer (m_data (snd (Vector_move other))) = None \<and>
   cells (m_data (snd (Vector_move other))) = [] \<and>
   fst (Vector_move other) = other \<and>
   (this \<noteq> rhs \<longrightarrow>
      assign_move this rhs st = (this, st(this := st rhs, rhs := st this))) \<and>
   assign_move this this st = (this, st)"
  by (simp add: Vector_move_def Vector_default_def RawMemory_default_def RawMemory_Swap_def
        assign_move_def Swap_def Capacity_def Let_def RawMemory_eta Vector_eta)

theorem move_transfers_ownership_witness:
  "(0::nat) \<noteq> 1 \<and>
   assign_move 0 1 ((\<lambda>_. Vector_default)(0 := vec (Some 1002) 2 [1, 2::nat],
                                         1 := vec (Some 1004) 4 [7])) =
     (0, ((\<lambda>_. Vector_default)(0 := vec (Some 1002) 2 [1, 2::nat], 1 := vec (Some 1004) 4 [7]))
           (0 := vec (Some 1004) 4 [7], 1 := vec (Some 1002) 2 [1, 2])) \<and>
   Vector_move (vec (Some 1002) 2 [1, 2::nat]) = (vec (Some 1002) 2 [1, 2], Vector_default)"
proof -
  let ?st = "(\<lambda>_. Vector_default)(0 := vec (Some 1002) 2 [1, 2::nat], 1 := vec (Some 1004) 4 [7])"
  have h: "(0::nat) \<noteq> 1" by simp
  from move_transfers_ownership[where this = 0 and rhs = 1 and st = ?st
         and other = "vec (Some 1002) 2 [1, 2::nat]"] h
  show ?thesis by simp
qed

text \<open>
  Claim C6. For two distinct vector objects that satisfy the invariant, copy assignment, when
  no copy constructor and no copy assignment throws on an element of the source and the
  allocation (needed when the destination's capacity is below the source's size) succeeds,
  returns and leaves the destination with the elements and the size of the source, and leaves
  every other object, the source included, as it was. Self-assignment returns and changes
  nothing. When the destination's capacity is below the source's size and the copy
  constructor of a source element throws, copy assignment throws that exception and leaves
  the whole store, the destination included, as it was.
\<close>

theorem copy_assignment:
  assumes inv: "Vector_inv (st this)" "Vector_inv (st rhs)"
  shows "(this \<noteq> rhs \<and> nothrow T (elems (st rhs)) \<and>
          (Capacity (st this) < m_size (st rhs) \<longrightarrow> allocates T A (m_size (st rhs))) \<longrightarrow>
            (\<exists>st'. assign_copy T A this rhs st = Returned this st' \<and>
               elems (st' this) = elems (st rhs) \<and> m_size (st' this) = m_size (st rhs) \<and>
               Vector_inv (st' this) \<and> (\<forall>obj. obj \<noteq> this \<longrightarrow> st' obj = st obj))) \<and>
         assign_copy T A this this st = Returned this st \<and>
         (this \<noteq> rhs \<and> Capacity (st this) < m_size (st rhs) \<and>
          allocates T A (m_size (st rhs)) \<and>
          first_throw (copy_ctor T) (elems (st rhs)) = Some e \<longrightarrow>
            assign_copy T A this rhs st = Threw e st)"
proof -
  from inv(1) obtain b cap xs where l: "st this = vec b cap xs" and le: "length xs \<le> cap"
    and b: "(b = None) = (cap = 0)"
    by (rule Vector_inv_cases)
  from inv(2) obtain b2 cap2 ys where r: "st rhs = vec b2 cap2 ys" and le2: "length ys \<le> cap2"
    by (rule Vector_inv_cases)
  have 1: "\<exists>st'. assign_copy T A this rhs st = Returned this st' \<and>
               elems (st' this) = elems (st rhs) \<and> m_size (st' this) = m_size (st rhs) \<and>
               Vector_inv (st' this) \<and> (\<forall>obj. obj \<noteq> this \<longrightarrow> st' obj = st obj)"
    if ne: "this \<noteq> rhs" and nt: "nothrow T (elems (st rhs))"
      and alloc: "Capacity (st this) < m_size (st rhs) \<longrightarrow> allocates T A (m_size (st rhs))"
  proof -
    from nt have cc: "first_throw (copy_ctor T) ys = None"
      and ca: "first_throw (copy_assign T) ys = None"
      by (simp_all add: r nothrow_first_throw)
    consider (swap) "cap < length ys" | (shrink) "length ys \<le> cap" "length ys < length xs"
      | (extend) "length ys \<le> cap" "length xs \<le> length ys"
      by linarith
    then show ?thesis
    proof cases
      case swap
      with alloc have al: "allocates T A (length ys)" by (simp add: l r)
      then obtain q where q: "A (length ys * sizeof T) = Some q" by (rule allocatesE)
      have "assign_copy T A this rhs st =
              Returned this (st(this := vec (Some q) (length ys) ys))"
        using ne l r le2 swap cc al q by (rule assign_copy_swap)
      moreover from swap have "ys \<noteq> []" by auto
      ultimately show ?thesis by (simp add: r)
    next
      case shrink
      have "assign_copy T A this rhs st = Returned this (st(this := vec b cap ys))"
        using ne l r le le2 shrink(2) ca by (rule assign_copy_shrink)
      then show ?thesis using shrink b by (simp add: r)
    next
      case extend
      have "assign_copy T A this rhs st = Returned this (st(this := vec b cap ys))"
        using ne l r le2 extend ca cc by (rule assign_copy_extend)
      then show ?thesis using extend b by (simp add: r)
    qed
  qed
  have 2: "assign_copy T A this this st = Returned this st"
    by (simp add: assign_copy_def)
  have 3: "assign_copy T A this rhs st = Threw e st"
    if ne: "this \<noteq> rhs" and small: "Capacity (st this) < m_size (st rhs)"
      and alloc: "allocates T A (m_size (st rhs))"
      and ft: "first_throw (copy_ctor T) (elems (st rhs)) = Some e"
  proof -
    from alloc have al: "allocates T A (length ys)" by (simp add: r)
    then obtain q where q: "A (length ys * sizeof T) = Some q" by (rule allocatesE)
    from ft have ft': "first_throw (copy_ctor T) ys = Some e" by (simp add: r)
    have "Vector_copy T A (vec b2 cap2 ys) = Threw e ()"
      using le2 ft' al q by (rule Vector_copy_Threw)
    then show ?thesis
      unfolding assign_copy_def using ne small by (simp add: l r)
  qed
  from 1 2 3 show ?thesis by blast
qed

theorem copy_assignment_witness:
  "Vector_inv (two_vectors 0) \<and> Vector_inv (two_vectors 1) \<and> (0::nat) \<noteq> 1 \<and>
   nothrow Plain (elems (two_vectors 1)) \<and>
   Capacity (two_vectors 0) < m_size (two_vectors 1) \<and>
   allocates Plain new_block (m_size (two_vectors 1)) \<and>
   allocates Throwing new_block (m_size (two_vectors 1)) \<and>
   first_throw (copy_ctor Throwing) (elems (two_vectors 1)) = Some (elem_exn 1) \<and>
   (\<exists>st'. assign_copy Plain new_block 0 1 two_vectors = Returned 0 st' \<and>
      elems (st' 0) = [13, 2] \<and> m_size (st' 0) = 2 \<and> st' 1 = two_vectors 1) \<and>
   assign_copy Plain new_block 0 0 two_vectors = Returned 0 two_vectors \<and>
   assign_copy Throwing new_block 0 1 two_vectors = Threw (elem_exn 1) two_vectors"
proof -
  have h1: "Vector_inv (two_vectors 0)" by (simp add: two_vectors_def)
  have h2: "Vector_inv (two_vectors 1)" by (simp add: two_vectors_def)
  have h3: "(0::nat) \<noteq> 1" by simp
  have h4: "nothrow Plain (elems (two_vectors 1))"
    by (simp add: two_vectors_def Plain_sel nothrow_def)
  have h5: "Capacity (two_vectors 0) < m_size (two_vectors 1)" by (simp add: two_vectors_def)
  have h6: "allocates Plain new_block (m_size (two_vectors 1))"
    by (simp add: allocates_def new_block_def Plain_sel two_vectors_def)
  have h6': "allocates Throwing new_block (m_size (two_vectors 1))"
    by (simp add: allocates_def new_block_def Throwing_sel two_vectors_def)
  have h7: "first_throw (copy_ctor Throwing) (elems (two_vectors 1)) = Some (elem_exn 1)"
    by (simp add: two_vectors_def Throwing_sel)
  have e: "elems (two_vectors 1) = [13, 2]" "m_size (two_vectors 1) = 2"
    by (simp_all add: two_vectors_def)
  from copy_assignment[where st = two_vectors and this = 0 and rhs = 1 and T = Plain
         and A = new_block, OF h1 h2] h3 h4 h6
  have a: "\<exists>st'. assign_copy Plain new_block 0 1 two_vectors = Returned 0 st' \<and>
      elems (st' 0) = [13, 2] \<and> m_size (st' 0) = 2 \<and> st' 1 = two_vectors 1"
    "assign_copy Plain new_block 0 0 two_vectors = Returned 0 two_vectors"
    unfolding e by auto
  from copy_assignment[where st = two_vectors and this = 0 and rhs = 1 and T = Throwing
         and A = new_block and e = "elem_exn 1", OF h1 h2] h3 h5 h6' h7
  have b: "assign_copy Throwing new_block 0 1 two_vectors = Threw (elem_exn 1) two_vectors"
    by blast
  from h1 h2 h3 h4 h5 h6 h6' h7 a b show ?thesis by blast
qed

text \<open>
  Claim C7, amended. On a vector that satisfies the invariant, \<^verbatim>\<open>Emplace\<close> at a valid
  position \<open>p\<close> (\<^verbatim>\<open>begin() + p\<close> with \<open>p \<le> size\<close>), when the constructor of the new element
  yields \<open>x\<close>, no copy or move of \<open>x\<close> or of an element throws and the allocation (if one is
  needed) succeeds, returns and leaves a vector one element longer, with \<open>x\<close> at position
  \<open>p\<close>. \<^verbatim>\<open>Insert(pos, value)\<close> does what \<^verbatim>\<open>Emplace(pos, value)\<close> does, for an lvalue and for
  an rvalue. When the argument is not an rvalue reference to an element of the vector itself,
  the elements before \<open>p\<close> are unchanged and in order and the elements formerly at
  \<open>p, ..., size - 1\<close> are at \<open>p + 1, ..., size\<close> in their order; inserting \<open>9\<close> at position
  \<open>2\<close> into \<open>[1, 2, 3, 4]\<close> gives \<open>[1, 2, 9, 3, 4]\<close>. When the argument is an rvalue
  reference to the element in slot \<open>i\<close> of the vector, the new element is constructed from
  that element first, which leaves it moved-from, and the same holds of the elements as this
  leaves them: \<^verbatim>\<open>v.Insert(v.begin() + 2, std::move(v[0]))\<close> on \<open>[1, 2, 3]\<close>, with \<open>0\<close> the
  moved-from value, gives \<open>[0, 2, 1, 3]\<close>.
\<close>

theorem Emplace_shifts_suffix:
  assumes inv: "Vector_inv v" and p: "p \<le> m_size v"
    and ctor: "construct T args (cells (m_data v)) = Built x c"
    and nt: "nothrow T (x # after_construct T args (elems v))"
    and alloc: "m_size v = Capacity v \<longrightarrow> allocates T A (grown (m_size v))"
  shows "\<exists>r v'. Emplace T A (ptr_add (Vector_begin v) p) args v = Returned r v' \<and>
           (\<forall>a. args = CopyFrom a \<longrightarrow>
                  Insert T A (ptr_add (Vector_begin v) p) a v = Returned r v') \<and>
           (\<forall>a. args = MoveFrom a \<longrightarrow>
                  Insert_rvalue T A (ptr_add (Vector_begin v) p) a v = Returned r v') \<and>
           Vector_inv v' \<and> m_size v' = m_size v + 1 \<and>
           elems v' = take p (after_construct T args (elems v)) @ x #
                      drop p (after_construct T args (elems v)) \<and>
           (\<forall>i<p. elems v' ! i = after_construct T args (elems v) ! i) \<and>
           elems v' ! p = x \<and>
           (\<forall>i. p \<le> i \<and> i < m_size v \<longrightarrow>
                  elems v' ! (i + 1) = after_construct T args (elems v) ! i) \<and>
           ((\<forall>i. args \<noteq> MoveFrom (Element i)) \<longrightarrow>
              elems v' = take p (elems v) @ x # drop p (elems v)) \<and>
           (\<forall>i. args = MoveFrom (Element i) \<longrightarrow>
                  i < m_size v \<and> x = elems v ! i \<and>
                  elems v' = take p ((elems v)[i := moved_from T x]) @ x #
                             drop p ((elems v)[i := moved_from T x]))"
proof -
  from inv obtain b cap xs where v: "v = vec b cap xs" and le: "length xs \<le> cap"
    and b: "(b = None) = (cap = 0)"
    by (rule Vector_inv_cases)
  let ?zs = "after_construct T args xs"
  from p have p': "p \<le> length xs" by (simp add: v)
  from nt have nt': "nothrow T (x # ?zs)" by (simp add: v)
  from ctor have ctor': "construct T args (cells (m_data (vec b cap xs))) = Built x c"
    by (simp only: v)
  obtain q where q: "length xs = cap \<longrightarrow>
      allocates T A (grown (length xs)) \<and> A (grown (length xs) * sizeof T) = Some q"
    using alloc by (cases "A (grown (length xs) * sizeof T)") (auto simp: v allocates_def)
  let ?b' = "if length xs < cap then b else Some q"
  let ?cap' = "if length xs < cap then cap else grown (length xs)"
  let ?ys = "take p ?zs @ x # drop p ?zs"
  have "Emplace T A (Ptr b p) args (vec b cap xs) = Returned (Ptr ?b' p) (vec ?b' ?cap' ?ys)"
    using le p' ctor' nt' q by (rule Emplace_vec)
  then have E: "Emplace T A (ptr_add (Vector_begin v) p) args v =
                  Returned (Ptr ?b' p) (vec ?b' ?cap' ?ys)"
    by (simp add: v)
  define r where "r = Ptr ?b' p"
  define v' where "v' = vec ?b' ?cap' ?ys"
  have e: "elems v = xs" "m_size v = length xs" by (simp_all add: v)
  have ev: "elems v' = ?ys" "m_size v' = length ?ys" by (simp_all add: v'_def)
  have E': "Emplace T A (ptr_add (Vector_begin v) p) args v = Returned r v'"
    using E by (simp only: r_def v'_def)
  have j1: "\<forall>a. args = CopyFrom a \<longrightarrow>
                  Insert T A (ptr_add (Vector_begin v) p) a v = Returned r v'"
    using E' by (auto simp: Insert_def)
  have j2: "\<forall>a. args = MoveFrom a \<longrightarrow>
                  Insert_rvalue T A (ptr_add (Vector_begin v) p) a v = Returned r v'"
    using E' by (auto simp: Insert_rvalue_def)
  have i1: "Vector_inv v'"
    unfolding v'_def using le p' b by (auto simp: less_grown Suc_leI)
  have i0: "m_size v' = m_size v + 1"
    unfolding ev e using p' by simp
  have i2: "\<forall>i<p. elems v' ! i = after_construct T args (elems v) ! i"
    unfolding ev e using p' by (simp add: nth_append)
  have i3: "elems v' ! p = x"
    unfolding ev e using p' by (simp add: nth_append)
  have i4: "\<forall>i. p \<le> i \<and> i < m_size v \<longrightarrow>
                  elems v' ! (i + 1) = after_construct T args (elems v) ! i"
    unfolding ev e using p' by (auto simp: nth_append nth_Cons Suc_diff_le split: nat.splits)
  have i5: "(\<forall>i. args \<noteq> MoveFrom (Element i)) \<longrightarrow>
              elems v' = take p (elems v) @ x # drop p (elems v)"
    unfolding ev e using after_construct_not_moved[of args T xs] by simp
  have i6: "\<forall>i. args = MoveFrom (Element i) \<longrightarrow>
                  i < m_size v \<and> x = elems v ! i \<and>
                  elems v' = take p ((elems v)[i := moved_from T x]) @ x #
                             drop p ((elems v)[i := moved_from T x])"
  proof (intro allI impI)
    fix i assume m: "args = MoveFrom (Element i)"
    from ctor' have "construct T (MoveFrom (Element i)) (cells (m_data (vec b cap xs))) = Built x c"
      unfolding m .
    from construct_moved_element[OF this]
    show "i < m_size v \<and> x = elems v ! i \<and>
          elems v' = take p ((elems v)[i := moved_from T x]) @ x #
                     drop p ((elems v)[i := moved_from T x])"
      unfolding ev e by (simp add: m)
  qed
  have i7: "elems v' = take p (after_construct T args (elems v)) @ x #
                      drop p (after_construct T args (elems v))"
    unfolding ev e ..
  from E' j1 j2 i1 i0 i7 i2 i3 i4 i5 i6 show ?thesis by blast
qed

theorem Emplace_shifts_suffix_witness:
  "Vector_inv (vec (Some 1032) 4 [1, 2, 3, 4::nat]) \<and>
   (2::nat) \<le> m_size (vec (Some 1032) 4 [1, 2, 3, 4::nat]) \<and>
   construct Plain (CopyFrom (Outside 9)) (cells (m_data (vec (Some 1032) 4 [1, 2, 3, 4]))) =
     Built 9 (cells (m_data (vec (Some 1032) 4 [1, 2, 3, 4]))) \<and>
   nothrow Plain
     (9 # after_construct Plain (CopyFrom (Outside 9)) (elems (vec (Some 1032) 4 [1, 2, 3, 4]))) \<and>
   allocates Plain new_block (grown (m_size (vec (Some 1032) 4 [1, 2, 3, 4::nat]))) \<and>
   (\<exists>r v'. Insert Plain new_block (ptr_add (Vector_begin (vec (Some 1032) 4 [1, 2, 3, 4::nat])) 2)
              (Outside 9) (vec (Some 1032) 4 [1, 2, 3, 4]) = Returned r v' \<and>
            m_size v' = 5 \<and> elems v' = [1, 2, 9, 3, 4])"
proof -
  let ?v = "vec (Some 1032) 4 [1, 2, 3, 4::nat]"
  have h1: "Vector_inv ?v" by simp
  have h2: "(2::nat) \<le> m_size ?v" by simp
  have h3: "construct Plain (CopyFrom (Outside 9)) (cells (m_data ?v)) =
              Built 9 (cells (m_data ?v))"
    by (simp add: Plain_sel)
  have h4: "nothrow Plain (9 # after_construct Plain (CopyFrom (Outside 9)) (elems ?v))"
    by (simp add: Plain_sel nothrow_def)
  have h5: "allocates Plain new_block (grown (m_size ?v))"
    by (simp add: allocates_def new_block_def Plain_sel grown_def)
  from h5 have h5': "m_size ?v = Capacity ?v \<longrightarrow> allocates Plain new_block (grown (m_size ?v))"
    by (rule impI)
  from Emplace_shifts_suffix[of ?v 2 Plain "CopyFrom (Outside 9)" 9 "cells (m_data ?v)"
         new_block, OF h1 h2 h3 h4 h5']
  obtain r v' where r:
    "\<forall>a. CopyFrom (Outside 9) = CopyFrom a \<longrightarrow>
       Insert Plain new_block (ptr_add (Vector_begin ?v) 2) a ?v = Returned r v'"
    "m_size v' = m_size ?v + 1"
    "(\<forall>i. CopyFrom (Outside 9) \<noteq> MoveFrom (Element i)) \<longrightarrow>
       elems v' = take 2 (elems ?v) @ 9 # drop 2 (elems ?v)"
    by blast
  from r(1) have a: "Insert Plain new_block (ptr_add (Vector_begin ?v) 2) (Outside 9) ?v =
                       Returned r v'"
    by blast
  from r(3) have "elems v' = take 2 (elems ?v) @ 9 # drop 2 (elems ?v)" by simp
  then have e: "elems v' = [1, 2, 9, 3, 4]" by simp
  from r(2) have s: "m_size v' = 5" by simp
  from a s e have "\<exists>r v'. Insert Plain new_block (ptr_add (Vector_begin ?v) 2) (Outside 9) ?v =
                             Returned r v' \<and> m_size v' = 5 \<and> elems v' = [1, 2, 9, 3, 4]"
    by blast
  with h1 h2 h3 h4 h5 show ?thesis by blast
qed

theorem Insert_of_own_element_counterexample:
  "Vector_inv (vec (Some 1032) 4 [1, 2, 3::nat]) \<and>
   2 \<le> m_size (vec (Some 1032) 4 [1, 2, 3::nat]) \<and>
   nothrow Plain [0, 1, 2, 3] \<and>
   Insert_rvalue Plain new_block (ptr_add (Vector_begin (vec (Some 1032) 4 [1, 2, 3::nat])) 2)
     (Element 0) (vec (Some 1032) 4 [1, 2, 3]) =
     Returned (Ptr (Some 1032) 2) (vec (Some 1032) 4 [0, 2, 1, 3]) \<and>
   take 2 (elems (vec (Some 1032) 4 [0, 2, 1, 3::nat])) \<noteq>
     take 2 (elems (vec (Some 1032) 4 [1, 2, 3]))"
proof -
  have 0: "Vector_inv (vec (Some 1032) 4 [1, 2, 3::nat]) \<and>
           2 \<le> m_size (vec (Some 1032) 4 [1, 2, 3::nat]) \<and> nothrow Plain [0, 1, 2, 3]"
    by (simp add: Plain_sel nothrow_def)
  let ?v = "vec (Some 1032) 4 [1, 2, 3::nat]"
  have c: "construct Plain (MoveFrom (Element 0)) (cells (m_data ?v)) =
             Built 1 [Some 0, Some 2, Some 3, None]"
    by (simp add: cells_vec Plain_sel)
  have n: "nothrow Plain (1 # after_construct Plain (MoveFrom (Element 0)) [1, 2, 3])"
    by (simp add: Plain_sel nothrow_def)
  have "Emplace Plain new_block (Ptr (Some 1032) 2) (MoveFrom (Element 0)) ?v =
          Returned (Ptr (if length [1, 2, 3::nat] < 4 then Some 1032 else Some 0) 2)
            (vec (if length [1, 2, 3::nat] < 4 then Some 1032 else Some 0)
               (if length [1, 2, 3::nat] < 4 then 4 else grown (length [1, 2, 3::nat]))
               (take 2 (after_construct Plain (MoveFrom (Element 0)) [1, 2, 3]) @ 1 #
                drop 2 (after_construct Plain (MoveFrom (Element 0)) [1, 2, 3])))"
    using _ _ c n by (rule Emplace_vec) simp_all
  then have E: "Emplace Plain new_block (Ptr (Some 1032) 2) (MoveFrom (Element 0)) ?v =
                  Returned (Ptr (Some 1032) 2) (vec (Some 1032) 4 [0, 2, 1, 3])"
    by (simp add: Plain_sel)
  have pos: "ptr_add (Vector_begin ?v) 2 = Ptr (Some 1032) 2" by simp
  have 1: "Insert_rvalue Plain new_block (ptr_add (Vector_begin ?v) 2) (Element 0) ?v =
                  Returned (Ptr (Some 1032) 2) (vec (Some 1032) 4 [0, 2, 1, 3])"
    unfolding Insert_rvalue_def pos by (rule E)
  have 2: "take 2 (elems (vec (Some 1032) 4 [0, 2, 1, 3::nat])) \<noteq>
             take 2 (elems (vec (Some 1032) 4 [1, 2, 3]))"
    by simp
  from 0 1 2 show ?thesis by blast
qed

text \<open>
  Claim C8, amended. On a vector that satisfies the invariant, \<^verbatim>\<open>Erase\<close> at a position \<open>p\<close>
  before the end, when no move assignment of an element after \<open>p\<close> throws, returns and leaves a
  vector one element shorter with the same capacity: the elements before \<open>p\<close> are unchanged,
  the rest are the former elements after \<open>p\<close> in their order, and the slot that was last is
  destroyed. Erasing at position \<open>1\<close> of \<open>[1, 2, 3]\<close> gives \<open>[1, 3]\<close>.
\<close>

theorem Erase_closes_gap:
  assumes inv: "Vector_inv v" and p: "p < m_size v"
    and mv: "first_throw (move_assign T) (drop (Suc p) (elems v)) = None"
  shows "\<exists>r v'. Erase T (ptr_add (Vector_begin v) p) v = Returned r v' \<and>
           Vector_inv v' \<and> m_size v' = m_size v - 1 \<and> Capacity v' = Capacity v \<and>
           take p (elems v') = take p (elems v) \<and>
           drop p (elems v') = drop (Suc p) (elems v) \<and>
           elems v' = take p (elems v) @ drop (Suc p) (elems v) \<and>
           cells (m_data v') ! (m_size v - 1) = None"
proof -
  from inv obtain b cap xs where v: "v = vec b cap xs" and le: "length xs \<le> cap"
    and b: "(b = None) = (cap = 0)"
    by (rule Vector_inv_cases)
  from p have p': "p < length xs" by (simp add: v)
  from mv have mv': "first_throw (move_assign T) (drop (Suc p) xs) = None" by (simp add: v)
  let ?ys = "take p xs @ drop (Suc p) xs"
  have E: "Erase T (ptr_add (Vector_begin v) p) v = Returned (Ptr b p) (vec b cap ?ys)"
    using Erase_ok[OF p' le mv', of b] by (simp add: v)
  have len: "length ?ys = length xs - 1" using p' by simp
  have dead: "cells (m_data (vec b cap ?ys)) ! (length xs - 1) = None"
    using p' le by (simp add: cells_vec nth_append)
  show ?thesis
    using E le b p' dead by (simp add: v)
qed

theorem Erase_closes_gap_witness:
  "Vector_inv (vec (Some 1003) 3 [1, 2, 3::nat]) \<and>
   (1::nat) < m_size (vec (Some 1003) 3 [1, 2, 3::nat]) \<and>
   first_throw (move_assign Plain) (drop (Suc 1) (elems (vec (Some 1003) 3 [1, 2, 3]))) = None \<and>
   (\<exists>r v'. Erase Plain (ptr_add (Vector_begin (vec (Some 1003) 3 [1, 2, 3::nat])) 1)
              (vec (Some 1003) 3 [1, 2, 3]) = Returned r v' \<and>
            m_size v' = 2 \<and> elems v' = [1, 3])"
proof -
  let ?v = "vec (Some 1003) 3 [1, 2, 3::nat]"
  have h1: "Vector_inv ?v" by simp
  have h2: "(1::nat) < m_size ?v" by simp
  have h3: "first_throw (move_assign Plain) (drop (Suc 1) (elems ?v)) = None"
    by (simp add: Plain_sel)
  from Erase_closes_gap[OF h1 h2 h3]
  show ?thesis
    using h1 h2 h3 by auto
qed

theorem Erase_position_1_counterexample:
  "Erase Plain (ptr_add (Vector_begin (vec (Some 1003) 3 [1, 2, 3::nat])) 1)
     (vec (Some 1003) 3 [1, 2, 3]) =
     Returned (Ptr (Some 1003) 1) (vec (Some 1003) 3 [1, 3]) \<and>
   elems (vec (Some 1003) 3 [1, 3::nat]) \<noteq> [2, 3]"
proof -
  have "first_throw (move_assign Plain) (drop (Suc 1) [1, 2, 3::nat]) = None"
    by (simp add: Plain_sel)
  from Erase_ok[of 1 "[1, 2, 3::nat]" 3 Plain "Some 1003", OF _ _ this]
  show ?thesis by simp
qed



text \<open>
  Claim C10 fails on the code, by the handler of C1. On the full vector \<open>[13, 2]\<close>, which
  satisfies the invariant, \<^verbatim>\<open>Insert(begin() + 1, 5)\<close> at the valid position \<open>1\<close> returns
  \<^verbatim>\<open>begin() + 1\<close> of the vector as it is after the call, but the handler has destroyed the
  new element: the slot the iterator points to holds no object, and \<open>5\<close> is nowhere in the
  vector.
\<close>

theorem returned_iterator_to_destroyed_element:
  "Vector_inv (vec (Some 1008) 2 [13, 2::nat]) \<and>
   1 \<le> m_size (vec (Some 1008) 2 [13, 2::nat]) \<and>
   Insert Throwing new_block (ptr_add (Vector_begin (vec (Some 1008) 2 [13, 2::nat])) 1)
     (Outside 5) (vec (Some 1008) 2 [13, 2]) =
     Returned
       (ptr_add (Vector_begin
          \<lparr>m_data = \<lparr>m_buffer = Some 1016, m_capacity = 4,
                      cells = [None, None, Some 2, None]\<rparr>,
           m_size = 3\<rparr>) 1)
       \<lparr>m_data = \<lparr>m_buffer = Some 1016, m_capacity = 4, cells = [None, None, Some 2, None]\<rparr>,
        m_size = 3\<rparr> \<and>
   Vector_index
     \<lparr>m_data = \<lparr>m_buffer = Some 1016, m_capacity = 4,
                 cells = [None, None, Some (2::nat), None]\<rparr>,
      m_size = 3\<rparr> 1 = None \<and>
   Some (5::nat) \<notin> set [None, None, Some 2, None]"
proof -
  have a: "RawMemory_sized Throwing new_block 4 =
             Inr \<lparr>m_buffer = Some 1016, m_capacity = 4, cells = replicate 4 None\<rparr>"
    by (simp add: RawMemory_sized_def Allocate_def size_t_mul_def new_block_def Throwing_def)
  have r: "replicate 4 (None::nat option) = [None, None, None, None]"
    by (simp add: numeral_eq_Suc)
  have g: "grown (Suc (Suc 0)) = 4" by (simp add: grown_def)
  have 1: "Vector_inv (vec (Some 1008) 2 [13, 2::nat])" by simp
  have 2: "1 \<le> m_size (vec (Some 1008) 2 [13, 2::nat])" by simp
  have 3: "Insert Throwing new_block (ptr_add (Vector_begin (vec (Some 1008) 2 [13, 2::nat])) 1)
     (Outside 5) (vec (Some 1008) 2 [13, 2]) =
     Returned
       (ptr_add (Vector_begin
          \<lparr>m_data = \<lparr>m_buffer = Some 1016, m_capacity = 4,
                      cells = [None, None, Some 2, None]\<rparr>,
           m_size = 3\<rparr>) 1)
       \<lparr>m_data = \<lparr>m_buffer = Some 1016, m_capacity = 4, cells = [None, None, Some 2, None]\<rparr>,
        m_size = 3\<rparr>"
    by (simp add: Insert_def Emplace_def Emplace_realloc_def relocate_n_def g a r Throwing_sel
          vec_def cend_def cbegin_def GetAddress_def Vector_begin_def
          Capacity_def placement_new_def destroy_at_def destroy_def Let_def numeral_2_eq_2
          numeral_3_eq_3)
  have 4: "Vector_index
     \<lparr>m_data = \<lparr>m_buffer = Some 1016, m_capacity = 4,
                 cells = [None, None, Some (2::nat), None]\<rparr>,
      m_size = 3\<rparr> 1 = None"
    by (simp add: Vector_index_def)
  have 5: "Some (5::nat) \<notin> set [None, None, Some 2, None]" by simp
  from 1 2 3 4 5 show ?thesis by blast
qed

end
